theory Spec2Isabelle
  imports Complex_Main
begin

section \<open>Data model\<close>

text \<open>
  The persistent entities of the learning platform, as the Mongoose schemas declare them
  (models/Payment.js, models/Progress.js, models/Quiz.js, the Level and Course models).
  Object ids are natural numbers, JavaScript numbers that the code only ever compares,
  counts or increments are integers, and \<open>Date.now()\<close> is an integer time stamp
  handed to every operation that reads the clock.
\<close>

type_synonym oid = nat
type_synonym time = int

text \<open>
  A string that the code trims is the sequence of its UTF-16 code units, as a JavaScript
  string is; \<open>utf16\<close> gives the code units of a string of ASCII characters.
\<close>

type_synonym js_string = "nat list"

definition utf16 :: "string \<Rightarrow> js_string" where
  "utf16 s = map of_char s"

datatype role = Admin | Student

datatype course_status = Draft | Published | Archived

datatype payment_status = Pending | Approved | Rejected

datatype quiz_status = Active | Inactive

datatype level_status = LevelActive | LevelInactive

record user =
  u_id :: oid
  u_role :: role

record course =
  price :: int
  c_status :: course_status

record level =
  l_id :: oid
  l_courseId :: oid
  levelNumber :: int
  title :: string
  description :: string
  videoPath :: "string option"
  videoDuration :: int
  quizId :: "oid option"
  quizEnabled :: bool
  l_order :: int
  l_status :: level_status

record payment =
  p_id :: oid
  transactionId :: js_string
  proofImage :: string
  amount :: int
  p_status :: payment_status
  verifiedBy :: "oid option"
  verifiedAt :: "time option"
  rejectionReason :: string
  p_notes :: string

record level_progress =
  lp_levelId :: oid
  completed :: bool
  completedAt :: "time option"
  quizScore :: int
  quizPassed :: bool
  quizAttempts :: int
  videoWatchedPercent :: int

record progress =
  completedLevels :: "level_progress list"
  currentLevel :: int
  totalProgress :: int
  courseCompleted :: bool
  courseCompletedAt :: "time option"
  lastAccessedAt :: time

record question =
  qn_id :: oid
  qn_options :: "string list"
  correctAnswer :: int

record quiz =
  q_levelId :: oid
  q_courseId :: oid
  questions :: "question list"
  passingScore :: int
  maxAttempts :: int
  q_status :: quiz_status

text \<open>
  The database. Payment and Progress carry a unique compound index on
  \<open>(userId, courseId)\<close>, so each collection is a finite map keyed by that pair,
  and the pair is the key instead of two fields of the document; courses and quizzes
  are looked up by id only; levels are also counted per course, so they are kept as the
  list of documents. \<open>nextId\<close> is the source of fresh payment ids.
\<close>

record db =
  courses :: "oid \<rightharpoonup> course"
  levels :: "level list"
  quizzes :: "oid \<rightharpoonup> quiz"
  payments :: "oid \<times> oid \<rightharpoonup> payment"
  progresses :: "oid \<times> oid \<rightharpoonup> progress"
  nextId :: oid

text \<open>A handler answers with an error (HTTP status and message) or with its payload.\<close>

datatype http_error = HttpError (code: nat) (message: string)

section \<open>Entitlement\<close>

text \<open>
  \<open>Payment.findOne({ userId, courseId, status: 'approved' })\<close>: the pair's payment
  document when its status is approved.
\<close>

definition findApprovedPayment :: "db \<Rightarrow> oid \<Rightarrow> oid \<Rightarrow> payment option" where
  "findApprovedPayment d uid cid =
     (case payments d (uid, cid) of
        None \<Rightarrow> None
      | Some p \<Rightarrow> if p_status p = Approved then Some p else None)"

text \<open>
  \<open>checkCourseAccess\<close> of the progress routes: the course as the caller may see it,
  and the access decision.
\<close>

definition checkCourseAccess :: "db \<Rightarrow> user \<Rightarrow> oid \<Rightarrow> course option \<times> bool" where
  "checkCourseAccess d usr courseId =
     (case courses d courseId of
        None \<Rightarrow> (None, False)
      | Some crs \<Rightarrow>
          if u_role usr \<noteq> Admin \<and> c_status crs \<noteq> Published then (None, False)
          else
            let isFree = (price crs = 0) in
            if u_role usr = Admin \<or> isFree then (Some crs, True)
            else (Some crs, findApprovedPayment d (u_id usr) courseId \<noteq> None))"

text \<open>The rule of the specification's Entitlement Resolver, in the spec's own words.\<close>

definition hasAccess_spec :: "role \<Rightarrow> int \<Rightarrow> payment_status option \<Rightarrow> bool" where
  "hasAccess_spec r coursePrice latestPaymentStatus =
     (r = Admin \<or> coursePrice = 0 \<or> latestPaymentStatus = Some Approved)"

section \<open>GET /payments/course/:courseId/status\<close>

record status_body =
  sb_status :: string
  sb_hasAccess :: bool
  sb_progress :: int
  sb_currentLevel :: int

fun payment_status_name :: "payment_status \<Rightarrow> string" where
  "payment_status_name Pending = ''pending''"
| "payment_status_name Approved = ''approved''"
| "payment_status_name Rejected = ''rejected''"

definition getCourseStatus :: "db \<Rightarrow> user \<Rightarrow> oid \<Rightarrow> http_error + status_body" where
  "getCourseStatus d usr courseId =
     (case courses d courseId of
        None \<Rightarrow> Inl (HttpError 404 ''Course not found'')
      | Some crs \<Rightarrow>
          if u_role usr \<noteq> Admin \<and> c_status crs \<noteq> Published
          then Inl (HttpError 404 ''Course not found'')
          else
            let pay = payments d (u_id usr, courseId);
                prog = progresses d (u_id usr, courseId);
                isFree = (price crs = 0)
            in Inr \<lparr> sb_status =
                       (case pay of
                          Some p \<Rightarrow> payment_status_name (p_status p)
                        | None \<Rightarrow> if isFree then ''free'' else ''unpaid''),
                     sb_hasAccess =
                       (isFree \<or> (case pay of Some p \<Rightarrow> p_status p = Approved | None \<Rightarrow> False)),
                     sb_progress = (case prog of Some g \<Rightarrow> totalProgress g | None \<Rightarrow> 0),
                     sb_currentLevel = (case prog of Some g \<Rightarrow> currentLevel g | None \<Rightarrow> 0) \<rparr>)"

section \<open>Payment state machine: POST /payments\<close>

text \<open>
  The request as the handler reads it: the uploaded proof file (its file name), the
  \<open>courseId\<close> field (absent or empty, not a valid ObjectId, or an id), the raw
  \<open>transactionId\<close> field (a string of the form, or absent), and the \<open>amount\<close>
  field (absent or empty, a value that \<open>Number\<close> does not turn into a finite
  number, or a number).
\<close>

datatype course_ref = NoCourseId | InvalidCourseId | CourseId oid

datatype amount_input = AmountAbsent | AmountNotFinite | Amount int

record payment_req =
  rq_file :: "string option"
  rq_courseId :: course_ref
  rq_transactionId :: "js_string option"
  rq_amount :: amount_input

record payment_reply =
  rp_code :: nat
  rp_payment :: payment
  rp_message :: "string option"

text \<open>
  \<open>String.prototype.trim\<close> removes the leading and the trailing code units that are
  white space or line terminators of ECMAScript: TAB, LF, VT, FF, CR, the space, the
  no-break space U+00A0, U+1680, U+2000 to U+200A, the separators U+2028 and U+2029,
  U+202F, U+205F, U+3000 and U+FEFF.
\<close>

definition isWhiteSpace :: "nat \<Rightarrow> bool" where
  "isWhiteSpace u =
     (u \<in> set [0x09, 0x0A, 0x0B, 0x0C, 0x0D, 0x20, 0xA0, 0x1680, 0x2028, 0x2029, 0x202F,
                0x205F, 0x3000, 0xFEFF]
      \<or> (0x2000 \<le> u \<and> u \<le> 0x200A))"

definition trim :: "js_string \<Rightarrow> js_string" where
  "trim s = rev (dropWhile isWhiteSpace (rev (dropWhile isWhiteSpace s)))"

text \<open>
  The handler. \<open>persist\<close> stands for \<open>persistUploadedFile\<close>: the stored path of the
  proof for its local path, or \<open>None\<close> when the upload throws. The file system (the
  temporary file, the old proof image) and the notification hooks are outside the
  database and are not modelled. Saving runs the schema's \<open>required\<close> validator on
  \<open>proofImage\<close>; its failure is answered 400 with the validator's message.
\<close>

definition submitPayment ::
  "(string \<Rightarrow> string option) \<Rightarrow> db \<Rightarrow> user \<Rightarrow> payment_req \<Rightarrow> (http_error + payment_reply) \<times> db" where
  "submitPayment persist d usr req =
     (case rq_file req of
        None \<Rightarrow> (Inl (HttpError 400 ''Proof of payment image is required''), d)
      | Some filename \<Rightarrow>
     (case rq_courseId req of
        NoCourseId \<Rightarrow> (Inl (HttpError 400 ''Course ID is required''), d)
      | InvalidCourseId \<Rightarrow> (Inl (HttpError 400 ''Invalid course ID''), d)
      | CourseId courseId \<Rightarrow>
     (let txn = (case rq_transactionId req of Some t \<Rightarrow> trim t | None \<Rightarrow> []) in
      if txn = [] then (Inl (HttpError 400 ''Transaction ID is required''), d)
      else
     (case courses d courseId of
        None \<Rightarrow> (Inl (HttpError 404 ''Course not found''), d)
      | Some crs \<Rightarrow>
          if u_role usr \<noteq> Admin \<and> c_status crs \<noteq> Published
          then (Inl (HttpError 404 ''Course not found''), d)
          else if price crs = 0
          then (Inl (HttpError 400 ''This course is free. Payment is not required.''), d)
          else
     (case (case rq_amount req of
              AmountAbsent \<Rightarrow> Some (price crs)
            | AmountNotFinite \<Rightarrow> None
            | Amount a \<Rightarrow> Some a) of
        None \<Rightarrow> (Inl (HttpError 400 ''Invalid payment amount''), d)
      | Some amt \<Rightarrow>
          if amt \<le> 0 then (Inl (HttpError 400 ''Invalid payment amount''), d)
          else
            let existingPayment = payments d (u_id usr, courseId) in
            if (case existingPayment of
                  Some p \<Rightarrow> p_status p = Approved \<or> p_status p = Pending
                | None \<Rightarrow> False)
            then (Inl (HttpError 400 ''You have already submitted a payment for this course''), d)
            else
     (case persist (''/uploads/payment-proofs/'' @ filename) of
        None \<Rightarrow> (Inl (HttpError 500 ''Server error''), d)
      | Some proof \<Rightarrow>
          if proof = [] then (Inl (HttpError 400 ''Payment proof is required''), d)
          else
            (case existingPayment of
               Some p \<Rightarrow>
                 let p' = p\<lparr> transactionId := txn, amount := amt, proofImage := proof,
                             p_status := Pending, rejectionReason := [], p_notes := [],
                             verifiedBy := None, verifiedAt := None \<rparr>
                 in (Inr \<lparr> rp_code = 200, rp_payment = p',
                            rp_message = Some ''Payment proof resubmitted successfully'' \<rparr>,
                     d\<lparr>payments := (payments d)((u_id usr, courseId) \<mapsto> p')\<rparr>)
             | None \<Rightarrow>
                 let p' = \<lparr> p_id = nextId d, transactionId = txn, proofImage = proof,
                            amount = amt, p_status = Pending, verifiedBy = None,
                            verifiedAt = None, rejectionReason = [], p_notes = [] \<rparr>
                 in (Inr \<lparr> rp_code = 201, rp_payment = p', rp_message = None \<rparr>,
                     d\<lparr>payments := (payments d)((u_id usr, courseId) \<mapsto> p'),
                       nextId := Suc (nextId d)\<rparr>))))))))"

section \<open>Progression tracker\<close>

text \<open>
  JavaScript's \<open>x || 1\<close> on a number: the default replaces the falsy value 0.
\<close>

definition js_or :: "int \<Rightarrow> int \<Rightarrow> int" where
  "js_or x dflt = (if x = 0 then dflt else x)"

text \<open>
  \<open>Math.round((count / total) * 100)\<close> in the arithmetic of JavaScript numbers
  (IEEE 754 binary64). A positive finite double is a pair \<open>(m, e)\<close> that stands for
  \<open>m * 2 ^ e\<close>. The quotient and the product are each rounded to the nearest double,
  a significand of 53 bits, ties to the even significand; \<open>Math.round\<close> then takes the
  nearest integer of the double, halves up, exactly.

  \<open>bit_length n\<close> is the number of binary digits of \<open>n\<close>.
\<close>

function bit_length :: "nat \<Rightarrow> nat" where
  "bit_length n = (if n = 0 then 0 else Suc (bit_length (n div 2)))"
  by pat_completeness auto
termination by (relation "measure id") auto

declare bit_length.simps [simp del]

text \<open>The integer nearest to \<open>n / d\<close> for \<open>d > 0\<close>, ties to the even one.\<close>

definition roundHalfEven :: "int \<Rightarrow> int \<Rightarrow> int" where
  "roundHalfEven n d =
     (let q = n div d; r = n mod d
      in if 2 * r > d \<or> (2 * r = d \<and> odd q) then q + 1 else q)"

text \<open>
  The double nearest to \<open>n / d\<close> for positive \<open>n\<close> and \<open>d\<close>: the quotient is scaled
  by the power of two \<open>s\<close> that puts its integer part into \<open>2 ^ 52 ..< 2 ^ 53\<close>,
  rounded there, and scaled back. (The exponent range of a double is not a limit for
  the counts of the handlers; it is not modelled.)
\<close>

definition round53 :: "int \<Rightarrow> int \<Rightarrow> int \<times> int" where
  "round53 n d =
     (let k = int (bit_length (nat n)) - int (bit_length (nat d));
          s0 = 53 - k;
          m0 = (n * 2 ^ nat s0) div (d * 2 ^ nat (- s0));
          s = (if m0 \<ge> 2 ^ 53 then s0 - 1 else s0)
      in (roundHalfEven (n * 2 ^ nat s) (d * 2 ^ nat (- s)), - s))"

text \<open>\<open>x * 100\<close> for a double \<open>x\<close> that is zero or positive.\<close>

definition times100 :: "int \<times> int \<Rightarrow> int \<times> int" where
  "times100 x =
     (case x of (m, e) \<Rightarrow>
        if m = 0 then (0, 0)
        else (case round53 (100 * m) 1 of (m2, e2) \<Rightarrow> (m2, e2 + e)))"

text \<open>\<open>Math.round(x)\<close> for a double \<open>x\<close> that is zero or positive: \<open>floor(x + 1/2)\<close>.\<close>

definition Math_round :: "int \<times> int \<Rightarrow> int" where
  "Math_round x =
     (case x of (m, e) \<Rightarrow>
        if e \<ge> 0 then m * 2 ^ nat e
        else (2 * m + 2 ^ nat (- e)) div 2 ^ (nat (- e) + 1))"

text \<open>
  \<open>Math.round((cnt / tot) * 100)\<close> for the arguments the handlers pass: a count
  \<open>cnt \<ge> 0\<close> and a total \<open>tot > 0\<close> (a zero count gives the double 0 and the
  result 0).
\<close>

definition round_percent :: "int \<Rightarrow> int \<Rightarrow> int" where
  "round_percent cnt tot =
     (if cnt \<le> 0 \<or> tot \<le> 0 then 0 else Math_round (times100 (round53 cnt tot)))"

text \<open>\<open>Level.findById\<close> and \<open>Level.countDocuments({ courseId })\<close>.\<close>

definition findLevel :: "db \<Rightarrow> oid \<Rightarrow> level option" where
  "findLevel d lid = find (\<lambda>l. l_id l = lid) (levels d)"

definition countLevels :: "db \<Rightarrow> oid \<Rightarrow> int" where
  "countLevels d cid = int (length (filter (\<lambda>l. l_courseId l = cid) (levels d)))"

text \<open>
  The lazily created Progress document. The handlers that create one (the helpers
  \<open>ensureProgress\<close> of the progress and the payment routes, and the inline copies in
  the quiz and the stream handlers) all pass \<open>completedLevels: []\<close> and
  \<open>currentLevel: 1\<close>; the schema defaults fill in the rest.
\<close>

definition newProgress :: "time \<Rightarrow> progress" where
  "newProgress now =
     \<lparr> completedLevels = [], currentLevel = 1, totalProgress = 0, courseCompleted = False,
       courseCompletedAt = None, lastAccessedAt = now \<rparr>"

definition ensureProgress :: "db \<Rightarrow> time \<Rightarrow> oid \<Rightarrow> oid \<Rightarrow> progress \<times> db" where
  "ensureProgress d now uid cid =
     (case progresses d (uid, cid) of
        Some g \<Rightarrow> (g, d)
      | None \<Rightarrow>
          (newProgress now,
           d\<lparr>progresses := (progresses d)((uid, cid) \<mapsto> newProgress now)\<rparr>))"

text \<open>
  \<open>progress.save()\<close>. Mongoose runs the schema's validators on what the handler
  wrote: \<open>totalProgress\<close> and the written entry's \<open>videoWatchedPercent\<close> must lie
  in 0..100; a document that fails them is not written and the handler's \<open>catch\<close>
  answers 500.
\<close>

definition validProgress :: "progress \<Rightarrow> level_progress \<Rightarrow> bool" where
  "validProgress g e =
     (0 \<le> totalProgress g \<and> totalProgress g \<le> 100
      \<and> 0 \<le> videoWatchedPercent e \<and> videoWatchedPercent e \<le> 100)"

definition saveProgress :: "db \<Rightarrow> oid \<Rightarrow> oid \<Rightarrow> progress \<Rightarrow> db" where
  "saveProgress d uid cid g = d\<lparr>progresses := (progresses d)((uid, cid) \<mapsto> g)\<rparr>"

fun findIndex :: "('a \<Rightarrow> bool) \<Rightarrow> 'a list \<Rightarrow> nat option" where
  "findIndex P [] = None"
| "findIndex P (x # xs) = (if P x then Some 0 else map_option Suc (findIndex P xs))"

text \<open>The schema method \<open>calculateProgress(totalLevels)\<close>.\<close>

definition calculateProgress :: "progress \<Rightarrow> int \<Rightarrow> progress" where
  "calculateProgress g totalLevels =
     (if totalLevels = 0 then g
      else g\<lparr>totalProgress :=
               round_percent (int (length (filter completed (completedLevels g)))) totalLevels\<rparr>)"

text \<open>
  The tail both mutating handlers share: recompute the percentage, then mark the course
  completed when the frontier has passed the last level.
\<close>

definition markCompletion :: "progress \<Rightarrow> int \<Rightarrow> time \<Rightarrow> progress" where
  "markCompletion g totalLevels now =
     (let g1 = calculateProgress g totalLevels in
      if currentLevel g1 > totalLevels
      then g1\<lparr>courseCompleted := True, courseCompletedAt := Some now, totalProgress := 100\<rparr>
      else g1)"

subsection \<open>POST /progress/level-complete\<close>

text \<open>
  The request body. \<open>lc_videoWatchedPercent\<close> is \<open>Number(videoWatchedPercent)\<close>,
  \<open>None\<close> when that is NaN; an absent field defaults to 0.
\<close>

record level_complete_req =
  lc_courseId :: oid
  lc_levelId :: oid
  lc_videoWatchedPercent :: "int option"
  lc_quizScore :: int
  lc_quizPassed :: bool

definition levelData ::
  "level \<Rightarrow> level_complete_req \<Rightarrow> time \<Rightarrow> level_progress option \<Rightarrow> level_progress" where
  "levelData lvl req now old =
     (let videoPercent = min 100 (case lc_videoWatchedPercent req of Some v \<Rightarrow> v | None \<Rightarrow> 0);
          isVideoComplete = (videoPercent \<ge> 90);
          levelCompleted = (if quizEnabled lvl then lc_quizPassed req else isVideoComplete)
      in \<lparr> lp_levelId = lc_levelId req,
            completed = levelCompleted,
            completedAt = (if levelCompleted then Some now else None),
            quizScore = lc_quizScore req,
            quizPassed = lc_quizPassed req,
            quizAttempts = (case old of Some e \<Rightarrow> quizAttempts e | None \<Rightarrow> 0),
            videoWatchedPercent = videoPercent \<rparr>)"

definition putLevelEntry :: "level_progress list \<Rightarrow> nat option \<Rightarrow> level_progress \<Rightarrow> level_progress list" where
  "putLevelEntry entries idx e =
     (case idx of Some i \<Rightarrow> entries[i := e] | None \<Rightarrow> entries @ [e])"

text \<open>
  The unlock rule both mutating handlers apply:
  \<open>progress.currentLevel = Math.max(progress.currentLevel || 1, level.levelNumber + 1)\<close>.
\<close>

definition unlockNext :: "progress \<Rightarrow> level \<Rightarrow> progress" where
  "unlockNext g lvl = g\<lparr>currentLevel := max (js_or (currentLevel g) 1) (levelNumber lvl + 1)\<rparr>"

text \<open>
  The handler from the sequence check on, for the caller's Progress document \<open>prog\<close>
  and the database \<open>d1\<close> that holds it.
\<close>

definition recordLevelComplete ::
  "db \<Rightarrow> time \<Rightarrow> user \<Rightarrow> level \<Rightarrow> level_complete_req \<Rightarrow> progress
     \<Rightarrow> (http_error + progress) \<times> db" where
  "recordLevelComplete d1 now usr lvl req prog =
     (if levelNumber lvl > js_or (currentLevel prog) 1
      then (Inl (HttpError 403 ''Please complete previous levels first''), d1)
      else
        let levelIndex = findIndex (\<lambda>e. lp_levelId e = lc_levelId req) (completedLevels prog);
            old = map_option (\<lambda>i. completedLevels prog ! i) levelIndex;
            entry = levelData lvl req now old;
            g1 = prog\<lparr>completedLevels := putLevelEntry (completedLevels prog) levelIndex entry\<rparr>;
            g2 = (if \<not> quizEnabled lvl \<and> videoWatchedPercent entry \<ge> 90
                  then unlockNext g1 lvl else g1);
            g3 = markCompletion g2 (countLevels d1 (lc_courseId req)) now;
            g4 = g3\<lparr>lastAccessedAt := now\<rparr>
        in if validProgress g4 entry then (Inr g4, saveProgress d1 (u_id usr) (lc_courseId req) g4)
           else (Inl (HttpError 500 ''Server error''), d1))"

definition levelComplete ::
  "db \<Rightarrow> time \<Rightarrow> user \<Rightarrow> level_complete_req \<Rightarrow> (http_error + progress) \<times> db" where
  "levelComplete d now usr req =
     (case findLevel d (lc_levelId req) of
        None \<Rightarrow> (Inl (HttpError 404 ''Level not found for this course''), d)
      | Some lvl \<Rightarrow>
          if l_courseId lvl \<noteq> lc_courseId req
          then (Inl (HttpError 404 ''Level not found for this course''), d)
          else
            (case checkCourseAccess d usr (lc_courseId req) of
               (None, _) \<Rightarrow> (Inl (HttpError 404 ''Course not found''), d)
             | (Some crs, hasAccess) \<Rightarrow>
                 if \<not> hasAccess
                 then (Inl (HttpError 403 ''Course locked until payment is approved''), d)
                 else
                   (case ensureProgress d now (u_id usr) (lc_courseId req) of
                      (prog, d1) \<Rightarrow> recordLevelComplete d1 now usr lvl req prog)))"

subsection \<open>POST /quizzes/:id/submit\<close>

text \<open>
  The \<open>selectedAnswer\<close> of one item of the request's \<open>answers\<close> array, by what
  \<open>Number(...)\<close> makes of it: the field is absent (\<open>undefined\<close>, NaN), it is
  \<open>null\<close> (0), it is a string that is empty or white space only (0), it is another
  value that \<open>Number\<close> turns into the integer \<open>n\<close> (a number, a numeric
  string), or it is anything else (NaN, an infinity or a number that is not an integer).
\<close>

datatype selection =
    NoSelection
  | NullSelection
  | EmptySelection
  | Selected int
  | OtherSelection

text \<open>
  \<open>parsedAnswer = Number(item?.selectedAnswer)\<close> when
  \<open>Number.isInteger(parsedAnswer)\<close>, else \<open>None\<close>.
\<close>

fun parsedAnswer :: "selection \<Rightarrow> int option" where
  "parsedAnswer NoSelection = None"
| "parsedAnswer NullSelection = Some 0"
| "parsedAnswer EmptySelection = Some 0"
| "parsedAnswer (Selected n) = Some n"
| "parsedAnswer OtherSelection = None"

text \<open>
  One item of the request's \<open>answers\<close> array: the question id as a string (absent
  when the item has none) and the selected answer.
\<close>

record answer =
  a_questionId :: "oid option"
  a_selectedAnswer :: selection

record question_result =
  qr_questionId :: oid
  qr_selectedAnswer :: "int option"
  qr_correctAnswer :: int
  qr_isCorrect :: bool

record quiz_result =
  score :: int
  passed :: bool
  r_passingScore :: int
  correctAnswers :: int
  totalQuestions :: int
  attemptsUsed :: int
  r_maxAttempts :: int
  canRetry :: bool
  results :: "question_result list"
  r_progress :: progress

text \<open>The loop that fills \<open>answerMap\<close>: a later item for the same question wins.\<close>

fun answerMap :: "answer list \<Rightarrow> (oid \<rightharpoonup> int) \<Rightarrow> (oid \<rightharpoonup> int)" where
  "answerMap [] m = m"
| "answerMap (a # as) m =
     (case a_questionId a of
        None \<Rightarrow> answerMap as m
      | Some q \<Rightarrow>
          answerMap as
            (m(q \<mapsto> (case parsedAnswer (a_selectedAnswer a) of Some n \<Rightarrow> n | None \<Rightarrow> - 1))))"

definition gradeQuestion :: "(oid \<rightharpoonup> int) \<Rightarrow> question \<Rightarrow> question_result" where
  "gradeQuestion m q =
     (let selectedAnswer = (case m (qn_id q) of
                              Some n \<Rightarrow> if n \<ge> 0 then Some n else None
                            | None \<Rightarrow> None);
          isCorrect = (case selectedAnswer of
                         None \<Rightarrow> False
                       | Some n \<Rightarrow> n = correctAnswer q)
      in \<lparr> qr_questionId = qn_id q, qr_selectedAnswer = selectedAnswer,
            qr_correctAnswer = correctAnswer q, qr_isCorrect = isCorrect \<rparr>)"

definition gradeQuiz :: "quiz \<Rightarrow> answer list \<Rightarrow> question_result list" where
  "gradeQuiz qz answers = map (gradeQuestion (answerMap answers Map.empty)) (questions qz)"

text \<open>
  The checks of the handler up to the entitlement check (the quiz, its status, its
  questions, its level, its course and the caller's access to the course).
\<close>

definition quizGuards :: "db \<Rightarrow> user \<Rightarrow> oid \<Rightarrow> http_error + quiz \<times> level" where
  "quizGuards d usr qid =
     (case quizzes d qid of
        None \<Rightarrow> Inl (HttpError 404 ''Quiz not found'')
      | Some qz \<Rightarrow>
          if q_status qz \<noteq> Active \<and> u_role usr \<noteq> Admin
          then Inl (HttpError 403 ''Quiz is not active'')
          else if questions qz = []
          then Inl (HttpError 400 ''Quiz has no questions configured'')
          else
            (case findLevel d (q_levelId qz) of
               None \<Rightarrow> Inl (HttpError 404 ''Level not found'')
             | Some lvl \<Rightarrow>
                 (case courses d (q_courseId qz) of
                    None \<Rightarrow> Inl (HttpError 404 ''Course not found'')
                  | Some crs \<Rightarrow>
                      if u_role usr \<noteq> Admin \<and> c_status crs \<noteq> Published
                      then Inl (HttpError 404 ''Course not found'')
                      else if u_role usr \<noteq> Admin \<and> price crs \<noteq> 0
                              \<and> findApprovedPayment d (u_id usr) (q_courseId qz) = None
                      then Inl (HttpError 403 ''Course locked until payment is approved'')
                      else Inr (qz, lvl))))"

text \<open>
  The rest of the handler: the attempt limit, the grading, the level entry, the unlock
  rule and the save. The local values of the source keep their names.
\<close>

definition attemptsUsedBefore :: "level_progress option \<Rightarrow> int" where
  "attemptsUsedBefore existing = (case existing of Some e \<Rightarrow> js_or (quizAttempts e) 0 | None \<Rightarrow> 0)"

definition watchedEnough :: "level_progress option \<Rightarrow> bool" where
  "watchedEnough existing =
     (case existing of Some e \<Rightarrow> js_or (videoWatchedPercent e) 0 \<ge> 90 | None \<Rightarrow> False)"

definition correctCount :: "question_result list \<Rightarrow> int" where
  "correctCount res = int (length (filter qr_isCorrect res))"

definition levelProgress ::
  "level \<Rightarrow> time \<Rightarrow> level_progress option \<Rightarrow> int \<Rightarrow> bool \<Rightarrow> level_progress" where
  "levelProgress lvl now existing scr pss =
     (let cmpl = (pss \<and> watchedEnough existing) in
      \<lparr> lp_levelId = l_id lvl,
        completed = cmpl,
        completedAt = (if cmpl then Some now
                       else (case existing of Some e \<Rightarrow> completedAt e | None \<Rightarrow> None)),
        quizScore = scr,
        quizPassed = pss,
        quizAttempts = attemptsUsedBefore existing + 1,
        videoWatchedPercent =
          (case existing of Some e \<Rightarrow> js_or (videoWatchedPercent e) 0 | None \<Rightarrow> 0) \<rparr>)"

definition recordQuizAttempt ::
  "db \<Rightarrow> time \<Rightarrow> user \<Rightarrow> quiz \<Rightarrow> level \<Rightarrow> answer list \<Rightarrow> progress \<Rightarrow> (http_error + quiz_result) \<times> db" where
  "recordQuizAttempt d1 now usr qz lvl answers prog =
     (let levelIndex = findIndex (\<lambda>e. lp_levelId e = l_id lvl) (completedLevels prog);
          existing = map_option (\<lambda>i. completedLevels prog ! i) levelIndex
      in if u_role usr \<noteq> Admin \<and> attemptsUsedBefore existing \<ge> maxAttempts qz
         then (Inl (HttpError 400 ''Maximum attempts reached for this quiz''), d1)
         else
           let res = gradeQuiz qz answers;
               totalQs = int (length (questions qz));
               scr = round_percent (correctCount res) totalQs;
               pss = (scr \<ge> passingScore qz);
               cmpl = (pss \<and> watchedEnough existing);
               attempts = attemptsUsedBefore existing + 1;
               g1 = prog\<lparr>completedLevels :=
                           putLevelEntry (completedLevels prog) levelIndex
                             (levelProgress lvl now existing scr pss)\<rparr>;
               g2 = (if cmpl then unlockNext g1 lvl else g1);
               g3 = markCompletion g2 (countLevels d1 (q_courseId qz)) now
           in if validProgress g3 (levelProgress lvl now existing scr pss)
              then (Inr \<lparr> score = scr, passed = pss, r_passingScore = passingScore qz,
                          correctAnswers = correctCount res, totalQuestions = totalQs,
                          attemptsUsed = attempts, r_maxAttempts = maxAttempts qz,
                          canRetry = (\<not> pss \<and> attempts < maxAttempts qz),
                          results = res, r_progress = g3 \<rparr>,
                    saveProgress d1 (u_id usr) (q_courseId qz) g3)
              else (Inl (HttpError 500 ''Server error''), d1))"

definition submitQuiz ::
  "db \<Rightarrow> time \<Rightarrow> user \<Rightarrow> oid \<Rightarrow> answer list \<Rightarrow> (http_error + quiz_result) \<times> db" where
  "submitQuiz d now usr qid answers =
     (case quizGuards d usr qid of
        Inl e \<Rightarrow> (Inl e, d)
      | Inr (qz, lvl) \<Rightarrow>
          (case ensureProgress d now (u_id usr) (q_courseId qz) of
             (prog, d1) \<Rightarrow> recordQuizAttempt d1 now usr qz lvl answers prog))"

section \<open>Media delivery gateway: GET /levels/:id/stream\<close>

text \<open>
  \<open>Boolean(videoPath && videoPath !== 'pending')\<close>: the level has a video reference
  that is neither null, empty nor the placeholder.
\<close>

definition hasVideo :: "string option \<Rightarrow> bool" where
  "hasVideo vp = (case vp of None \<Rightarrow> False | Some p \<Rightarrow> p \<noteq> [] \<and> p \<noteq> ''pending'')"

text \<open>
  The authorization part of the stream handler, up to and including the update of
  \<open>lastAccessedAt\<close>; what follows it in the handler only chooses how the bytes are
  served. The save writes \<open>lastAccessedAt\<close> only, a path without a validator.
\<close>

definition streamAuthorize :: "db \<Rightarrow> time \<Rightarrow> user \<Rightarrow> oid \<Rightarrow> (http_error + level) \<times> db" where
  "streamAuthorize d now usr lid =
     (case findLevel d lid of
        None \<Rightarrow> (Inl (HttpError 404 ''Video not uploaded yet''), d)
      | Some lvl \<Rightarrow>
          if \<not> hasVideo (videoPath lvl)
          then (Inl (HttpError 404 ''Video not uploaded yet''), d)
          else
            (case courses d (l_courseId lvl) of
               None \<Rightarrow> (Inl (HttpError 404 ''Course not found''), d)
             | Some crs \<Rightarrow>
                 if u_role usr \<noteq> Admin \<and> c_status crs \<noteq> Published
                 then (Inl (HttpError 404 ''Course not found''), d)
                 else
                   let approvedPayment = findApprovedPayment d (u_id usr) (l_courseId lvl);
                       hasAccess = (u_role usr = Admin \<or> price crs = 0 \<or> approvedPayment \<noteq> None)
                   in if \<not> hasAccess
                      then (Inl (HttpError 403 ''Course locked until payment is approved''), d)
                      else if u_role usr \<noteq> Admin
                      then
                        (case ensureProgress d now (u_id usr) (l_courseId lvl) of
                           (prog, d1) \<Rightarrow>
                             if levelNumber lvl > js_or (currentLevel prog) 1
                             then (Inl (HttpError 403 ''You must complete previous levels first''), d1)
                             else (Inr lvl,
                                   saveProgress d1 (u_id usr) (l_courseId lvl)
                                     (prog\<lparr>lastAccessedAt := now\<rparr>)))
                      else (Inr lvl, d)))"

subsection \<open>Serving a local file\<close>

text \<open>
  The value of the \<open>Range\<close> header is a string of code units below 256, one
  \<open>char\<close> each (Node decodes header bytes as Latin-1). The white space among them
  is TAB, LF, VT, FF, CR, the space and the no-break space U+00A0.
\<close>

definition isWhite :: "char \<Rightarrow> bool" where
  "isWhite c = (c \<in> set [CHR '' '', CHR 0x09, CHR 0x0A, CHR 0x0B, CHR 0x0C, CHR 0x0D, CHR 0xA0])"

text \<open>
  \<open>parseInt(s, 10)\<close>: leading white space is skipped, a sign is read, then the longest
  run of decimal digits; \<open>None\<close> is NaN (no digit). The loss of precision of a double
  on very long digit strings is not modelled.
\<close>

definition isDigit :: "char \<Rightarrow> bool" where
  "isDigit c = (c \<in> set ''0123456789'')"

definition digitVal :: "char \<Rightarrow> int" where
  "digitVal c = int (of_char c) - 48"

definition digitsValue :: "string \<Rightarrow> int" where
  "digitsValue ds = foldl (\<lambda>acc c. 10 * acc + digitVal c) 0 ds"

definition parseInt10 :: "string \<Rightarrow> int option" where
  "parseInt10 s =
     (let t = dropWhile isWhite s;
          neg = (case t of c # _ \<Rightarrow> c = CHR ''-'' | [] \<Rightarrow> False);
          u = (case t of c # r \<Rightarrow> if c = CHR ''-'' \<or> c = CHR ''+'' then r else t | [] \<Rightarrow> t);
          ds = takeWhile isDigit u
      in if ds = [] then None
         else Some (if neg then - digitsValue ds else digitsValue ds))"

text \<open>\<open>s.replace(/bytes=/, "")\<close> removes the first occurrence of the pattern.\<close>

fun removeFirst :: "string \<Rightarrow> string \<Rightarrow> string" where
  "removeFirst pat [] = []"
| "removeFirst pat (c # cs) =
     (if take (length pat) (c # cs) = pat then drop (length pat) (c # cs)
      else c # removeFirst pat cs)"

text \<open>\<open>s.split("-")\<close>.\<close>

fun splitOn :: "char \<Rightarrow> string \<Rightarrow> string list" where
  "splitOn sep [] = [[]]"
| "splitOn sep (c # cs) =
     (if c = sep then [] # splitOn sep cs
      else (case splitOn sep cs of
              p # ps \<Rightarrow> (c # p) # ps
            | [] \<Rightarrow> [[c]]))"

text \<open>\<open>Number.MAX_SAFE_INTEGER\<close>.\<close>

definition MAX_SAFE_INTEGER :: int where
  "MAX_SAFE_INTEGER = 9007199254740991"

text \<open>
  \<open>fs.createReadStream(path, { start, end })\<close> of Node: both bounds are inclusive;
  the constructor throws when a bound is not an integer in
  \<open>0 .. Number.MAX_SAFE_INTEGER\<close> or when \<open>start > end\<close>; the stream ends at the
  end of the file, also when \<open>end\<close> lies beyond it. \<open>None\<close> is the throw.
\<close>

definition createReadStream :: "'b list \<Rightarrow> int \<Rightarrow> int option \<Rightarrow> 'b list option" where
  "createReadStream content start end_opt =
     (case end_opt of
        None \<Rightarrow> None
      | Some e \<Rightarrow>
          if start < 0 \<or> start > MAX_SAFE_INTEGER \<or> e < 0 \<or> e > MAX_SAFE_INTEGER \<or> start > e
          then None
          else Some (take (nat (e - start + 1)) (drop (nat start) content)))"

datatype header =
    ContentRangeUnsatisfied int
  | ContentRange int "int option" int
  | AcceptRanges string
  | ContentLength "int option"
  | ContentType string

record 'b response =
  rs_status :: nat
  rs_headers :: "header list"
  rs_body :: "'b list"

text \<open>
  The ranged branch once \<open>start\<close> and \<open>end\<close> are parsed (\<open>None\<close> is NaN). The
  read stream is created before the head is written, so a throw of the constructor is
  answered by the handler's \<open>catch\<close> with 500.
\<close>

definition serveRange ::
  "'b list \<Rightarrow> string \<Rightarrow> int option \<Rightarrow> int option \<Rightarrow> http_error + 'b response" where
  "serveRange content contentType start end_opt =
     (let fileSize = int (length content) in
      case start of
        None \<Rightarrow> Inr \<lparr> rs_status = 416, rs_headers = [ContentRangeUnsatisfied fileSize], rs_body = [] \<rparr>
      | Some st \<Rightarrow>
          if st \<ge> fileSize
          then Inr \<lparr> rs_status = 416, rs_headers = [ContentRangeUnsatisfied fileSize], rs_body = [] \<rparr>
          else
            let chunksize = map_option (\<lambda>e. (e - st) + 1) end_opt in
            (case createReadStream content st end_opt of
               None \<Rightarrow> Inl (HttpError 500 ''Server error'')
             | Some file \<Rightarrow>
                 Inr \<lparr> rs_status = 206,
                       rs_headers = [ContentRange st end_opt fileSize, AcceptRanges ''bytes'',
                                     ContentLength chunksize, ContentType contentType],
                       rs_body = file \<rparr>))"

text \<open>
  The local branch of the handler for an existing file with the bytes \<open>content\<close>: the
  \<open>Range\<close> header, when present and not empty, is split into its two parts.
\<close>

definition fullResponse :: "'b list \<Rightarrow> string \<Rightarrow> 'b response" where
  "fullResponse content contentType =
     \<lparr> rs_status = 200,
       rs_headers = [ContentLength (Some (int (length content))), ContentType contentType],
       rs_body = content \<rparr>"

definition serveLocal :: "'b list \<Rightarrow> string \<Rightarrow> string option \<Rightarrow> http_error + 'b response" where
  "serveLocal content contentType rng =
     (let fileSize = int (length content) in
      case rng of
        None \<Rightarrow> Inr (fullResponse content contentType)
      | Some r \<Rightarrow>
          if r = [] then Inr (fullResponse content contentType)
          else
            (case splitOn CHR ''-'' (removeFirst ''bytes='' r) of
               [] \<Rightarrow> serveRange content contentType None (Some (fileSize - 1))
             | p0 # rest \<Rightarrow>
                 let start = parseInt10 p0;
                     end_opt = (case rest of
                                  p1 # _ \<Rightarrow> if p1 \<noteq> [] then parseInt10 p1 else Some (fileSize - 1)
                                | [] \<Rightarrow> Some (fileSize - 1))
                 in serveRange content contentType start end_opt))"

section \<open>Level metadata: GET /levels/course/:courseId and GET /levels/:id\<close>

text \<open>
  A response object is the list of its keys and values, in order. \<open>toObject()\<close>
  lists the fields of the level document; \<open>delete obj.videoPath\<close> removes a key.
\<close>

datatype jval = JNull | JBool bool | JNum int | JStr string | JId oid

type_synonym jobject = "(string \<times> jval) list"

fun level_status_name :: "level_status \<Rightarrow> string" where
  "level_status_name LevelActive = ''active''"
| "level_status_name LevelInactive = ''inactive''"

definition toObject :: "level \<Rightarrow> jobject" where
  "toObject l =
     [(''_id'', JId (l_id l)),
      (''courseId'', JId (l_courseId l)),
      (''levelNumber'', JNum (levelNumber l)),
      (''title'', JStr (title l)),
      (''description'', JStr (description l)),
      (''videoPath'', (case videoPath l of None \<Rightarrow> JNull | Some p \<Rightarrow> JStr p)),
      (''videoDuration'', JNum (videoDuration l)),
      (''quizId'', (case quizId l of None \<Rightarrow> JNull | Some q \<Rightarrow> JId q)),
      (''quizEnabled'', JBool (quizEnabled l)),
      (''order'', JNum (l_order l)),
      (''status'', JStr (level_status_name (l_status l)))]"

definition deleteKey :: "string \<Rightarrow> jobject \<Rightarrow> jobject" where
  "deleteKey k obj = filter (\<lambda>kv. fst kv \<noteq> k) obj"

text \<open>The level object both handlers build before they add their own keys.\<close>

definition strippedObject :: "role \<Rightarrow> level \<Rightarrow> jobject" where
  "strippedObject r l =
     (let obj = toObject l in
      if r \<noteq> Admin then deleteKey ''videoPath'' obj else obj)"

definition getLevel :: "db \<Rightarrow> user \<Rightarrow> oid \<Rightarrow> http_error + jobject" where
  "getLevel d usr lid =
     (case findLevel d lid of
        None \<Rightarrow> Inl (HttpError 404 ''Level not found'')
      | Some lvl \<Rightarrow>
          if u_role usr \<noteq> Admin
             \<and> (case courses d (l_courseId lvl) of
                   None \<Rightarrow> True
                 | Some crs \<Rightarrow> c_status crs \<noteq> Published)
          then Inl (HttpError 404 ''Level not found'')
          else Inr (strippedObject (u_role usr) lvl
                    @ [(''hasVideo'', JBool (hasVideo (videoPath lvl)))]))"

record levels_body =
  lb_levels :: "jobject list"
  lb_unlockedLevelNumber :: int
  lb_hasAccess :: bool

definition getCourseLevels :: "db \<Rightarrow> user \<Rightarrow> oid \<Rightarrow> http_error + levels_body" where
  "getCourseLevels d usr courseId =
     (case courses d courseId of
        None \<Rightarrow> Inl (HttpError 404 ''Course not found'')
      | Some crs \<Rightarrow>
          if u_role usr \<noteq> Admin \<and> c_status crs \<noteq> Published
          then Inl (HttpError 404 ''Course not found'')
          else
            let lvls = sort_key levelNumber (filter (\<lambda>l. l_courseId l = courseId) (levels d));
                pay = payments d (u_id usr, courseId);
                prog = progresses d (u_id usr, courseId);
                isFree = (price crs = 0);
                hasAccess = (u_role usr = Admin \<or> isFree
                             \<or> (case pay of Some p \<Rightarrow> p_status p = Approved | None \<Rightarrow> False));
                unlockedLevelNumber =
                  (if u_role usr = Admin then MAX_SAFE_INTEGER
                   else if hasAccess
                   then (case prog of Some g \<Rightarrow> js_or (currentLevel g) 1 | None \<Rightarrow> 1)
                   else 0)
            in Inr \<lparr> lb_levels =
                       map (\<lambda>l. strippedObject (u_role usr) l
                                 @ [(''hasVideo'', JBool (hasVideo (videoPath l))),
                                    (''locked'', JBool (levelNumber l > unlockedLevelNumber))])
                           lvls,
                     lb_unlockedLevelNumber = unlockedLevelNumber,
                     lb_hasAccess = hasAccess \<rparr>)"

text \<open>
  Two databases that differ at most in the stored video references of their levels,
  level by level with the same \<open>hasVideo\<close>.
\<close>

definition sameVideoPresence :: "level \<Rightarrow> level \<Rightarrow> bool" where
  "sameVideoPresence a b =
     (b = a\<lparr>videoPath := videoPath b\<rparr> \<and> hasVideo (videoPath b) = hasVideo (videoPath a))"

definition differOnlyInVideoPaths :: "db \<Rightarrow> db \<Rightarrow> bool" where
  "differOnlyInVideoPaths d1 d2 =
     (courses d2 = courses d1 \<and> payments d2 = payments d1 \<and> progresses d2 = progresses d1
      \<and> list_all2 sameVideoPresence (levels d1) (levels d2))"

section \<open>Observations used by the theorems\<close>

subsection \<open>The answer that counts for a question\<close>

text \<open>
  The answer a submission gives to a question is its last item that names the question;
  it is graded as correct when \<open>Number\<close> of its selection is an integer, not
  negative, equal to the stored index.
\<close>

definition lastAnswer :: "answer list \<Rightarrow> oid \<Rightarrow> answer option" where
  "lastAnswer answers q = find (\<lambda>a. a_questionId a = Some q) (rev answers)"

definition answeredCorrectly :: "answer list \<Rightarrow> question \<Rightarrow> bool" where
  "answeredCorrectly answers q =
     (case lastAnswer answers (qn_id q) of
        None \<Rightarrow> False
      | Some a \<Rightarrow>
          (case parsedAnswer (a_selectedAnswer a) of
             None \<Rightarrow> False
           | Some n \<Rightarrow> 0 \<le> n \<and> n = correctAnswer q))"

subsection \<open>The value of a double\<close>

text \<open>
  The real number a pair stands for, and what it means for a pair to be the double
  nearest to a positive real \<open>x\<close>: the exponent is the one that puts
  \<open>x / 2 ^ e\<close> into \<open>2 ^ 52 ..< 2 ^ 53\<close>, and the significand is the integer
  nearest to \<open>x / 2 ^ e\<close>, the even one of two that are equally near.
\<close>

definition double_value :: "int \<times> int \<Rightarrow> real" where
  "double_value x = (case x of (m, e) \<Rightarrow> real_of_int m * 2 powi e)"

definition nearest_double :: "real \<Rightarrow> int \<times> int \<Rightarrow> bool" where
  "nearest_double x b =
     (case b of (m, e) \<Rightarrow>
        2 ^ 52 \<le> x * 2 powi (- e) \<and> x * 2 powi (- e) < 2 ^ 53
        \<and> \<bar>x * 2 powi (- e) - real_of_int m\<bar> \<le> 1 / 2
        \<and> (\<bar>x * 2 powi (- e) - real_of_int m\<bar> = 1 / 2 \<longrightarrow> even m))"

subsection \<open>Reading a learner's stored progress\<close>

text \<open>
  What the database holds for a learner, a course and a level before a request: the
  level's entry in \<open>completedLevels\<close> (the first one for the level, as
  \<open>findIndex\<close> picks it), the attempt counter and the watched percentage of that
  entry (0 when there is none), all the entries of \<open>completedLevels\<close> (none when
  there is no Progress document yet), and the unlock frontier (1 when there is no
  Progress document yet, the value a lazily created one starts with).
\<close>

definition storedEntry :: "db \<Rightarrow> oid \<Rightarrow> oid \<Rightarrow> oid \<Rightarrow> level_progress option" where
  "storedEntry d uid cid lid =
     (case progresses d (uid, cid) of
        None \<Rightarrow> None
      | Some g \<Rightarrow> find (\<lambda>e. lp_levelId e = lid) (completedLevels g))"

definition storedAttempts :: "db \<Rightarrow> oid \<Rightarrow> oid \<Rightarrow> oid \<Rightarrow> int" where
  "storedAttempts d uid cid lid =
     (case storedEntry d uid cid lid of Some e \<Rightarrow> quizAttempts e | None \<Rightarrow> 0)"

definition storedWatched :: "db \<Rightarrow> oid \<Rightarrow> oid \<Rightarrow> oid \<Rightarrow> int" where
  "storedWatched d uid cid lid =
     (case storedEntry d uid cid lid of Some e \<Rightarrow> videoWatchedPercent e | None \<Rightarrow> 0)"

definition storedEntries :: "db \<Rightarrow> oid \<Rightarrow> oid \<Rightarrow> level_progress list" where
  "storedEntries d uid cid =
     (case progresses d (uid, cid) of Some g \<Rightarrow> completedLevels g | None \<Rightarrow> [])"

definition storedCurrentLevel :: "db \<Rightarrow> oid \<Rightarrow> oid \<Rightarrow> int" where
  "storedCurrentLevel d uid cid =
     (case progresses d (uid, cid) of Some g \<Rightarrow> currentLevel g | None \<Rightarrow> 1)"

section \<open>Example data\<close>

definition admin1 :: user where
  "admin1 = \<lparr> u_id = 1, u_role = Admin \<rparr>"

definition student2 :: user where
  "student2 = \<lparr> u_id = 2, u_role = Student \<rparr>"

definition paidCourse :: course where
  "paidCourse = \<lparr> price = 500, c_status = Published \<rparr>"

definition freeCourse :: course where
  "freeCourse = \<lparr> price = 0, c_status = Published \<rparr>"

definition db0 :: db where
  "db0 = \<lparr> courses = [10 \<mapsto> paidCourse, 11 \<mapsto> freeCourse],
           levels = [],
           quizzes = Map.empty,
           payments = Map.empty,
           progresses = Map.empty,
           nextId = 100 \<rparr>"

text \<open>
  The free course 11 has the levels 20 (number 1) and 22 (number 3), each with a quiz;
  quiz 40 of level 20 has four questions, passes at 70 and allows three attempts.
\<close>

definition level1 :: level where
  "level1 = \<lparr> l_id = 20, l_courseId = 11, levelNumber = 1, title = ''Intro'',
              description = ''First steps'', videoPath = Some ''/uploads/videos/intro.mp4'',
              videoDuration = 60, quizId = Some 40, quizEnabled = True, l_order = 0,
              l_status = LevelActive \<rparr>"

definition level3 :: level where
  "level3 = \<lparr> l_id = 22, l_courseId = 11, levelNumber = 3, title = ''Advanced'',
              description = ''Later steps'', videoPath = Some ''/uploads/videos/adv.mp4'',
              videoDuration = 90, quizId = Some 42, quizEnabled = True, l_order = 0,
              l_status = LevelActive \<rparr>"

definition quiz40 :: quiz where
  "quiz40 = \<lparr> q_levelId = 20, q_courseId = 11,
              questions = [\<lparr> qn_id = 1, qn_options = [''a'', ''b'', ''c'', ''d''], correctAnswer = 0 \<rparr>,
                           \<lparr> qn_id = 2, qn_options = [''a'', ''b'', ''c'', ''d''], correctAnswer = 1 \<rparr>,
                           \<lparr> qn_id = 3, qn_options = [''a'', ''b'', ''c'', ''d''], correctAnswer = 2 \<rparr>,
                           \<lparr> qn_id = 4, qn_options = [''a'', ''b'', ''c'', ''d''], correctAnswer = 3 \<rparr>],
              passingScore = 70, maxAttempts = 3, q_status = Active \<rparr>"

definition quiz42 :: quiz where
  "quiz42 = \<lparr> q_levelId = 22, q_courseId = 11,
              questions = [\<lparr> qn_id = 5, qn_options = [''yes'', ''no''], correctAnswer = 0 \<rparr>],
              passingScore = 70, maxAttempts = 3, q_status = Active \<rparr>"

text \<open>Three of the four questions of quiz 40 answered with the stored index.\<close>

definition answers3of4 :: "answer list" where
  "answers3of4 = [\<lparr> a_questionId = Some 1, a_selectedAnswer = Selected 0 \<rparr>,
                  \<lparr> a_questionId = Some 2, a_selectedAnswer = Selected 1 \<rparr>,
                  \<lparr> a_questionId = Some 3, a_selectedAnswer = Selected 2 \<rparr>,
                  \<lparr> a_questionId = Some 4, a_selectedAnswer = Selected 0 \<rparr>]"

text \<open>
  Student 2 and admin 1 on course 11, each at the frontier 1, with level 20 watched to
  \<open>watched\<close> percent and \<open>attempts\<close> quiz attempts used.
\<close>

definition entry20 :: "int \<Rightarrow> int \<Rightarrow> level_progress" where
  "entry20 watched attempts =
     \<lparr> lp_levelId = 20, completed = False, completedAt = None, quizScore = 0,
       quizPassed = False, quizAttempts = attempts, videoWatchedPercent = watched \<rparr>"

definition progress20 :: "int \<Rightarrow> int \<Rightarrow> progress" where
  "progress20 watched attempts =
     \<lparr> completedLevels = [entry20 watched attempts], currentLevel = 1, totalProgress = 0,
       courseCompleted = False, courseCompletedAt = None, lastAccessedAt = 1000 \<rparr>"

definition dbQ :: "int \<Rightarrow> int \<Rightarrow> db" where
  "dbQ watched attempts =
     \<lparr> courses = [10 \<mapsto> paidCourse, 11 \<mapsto> freeCourse],
       levels = [level1, level3],
       quizzes = [40 \<mapsto> quiz40, 42 \<mapsto> quiz42],
       payments = Map.empty,
       progresses = [(2, 11) \<mapsto> progress20 watched attempts,
                     (1, 11) \<mapsto> progress20 watched attempts],
       nextId = 100 \<rparr>"

text \<open>
  Quiz 41 of level 20 has forty questions, the first option the right one for each, and
  passes at 58; the submission answers the first 23 of them with the first option and
  leaves the others out.
\<close>

definition quiz41 :: quiz where
  "quiz41 = \<lparr> q_levelId = 20, q_courseId = 11,
              questions = map (\<lambda>i. \<lparr> qn_id = 100 + i, qn_options = [''yes'', ''no''],
                                       correctAnswer = 0 \<rparr>) [1..<41],
              passingScore = 58, maxAttempts = 3, q_status = Active \<rparr>"

definition answers23of40 :: "answer list" where
  "answers23of40 =
     map (\<lambda>i. \<lparr> a_questionId = Some (100 + i), a_selectedAnswer = Selected 0 \<rparr>) [1..<24]"

definition dbLong :: db where
  "dbLong = (dbQ 95 0)\<lparr>quizzes := [41 \<mapsto> quiz41]\<rparr>"

text \<open>
  A submission for quiz 40 that answers the questions 2 and 3 with the stored index,
  sends \<open>selectedAnswer: null\<close> for question 1 and leaves question 4 out.
\<close>

definition answersNull :: "answer list" where
  "answersNull = [\<lparr> a_questionId = Some 1, a_selectedAnswer = NullSelection \<rparr>,
                  \<lparr> a_questionId = Some 2, a_selectedAnswer = Selected 1 \<rparr>,
                  \<lparr> a_questionId = Some 3, a_selectedAnswer = Selected 2 \<rparr>]"






text \<open>A request that reports the locked level 22 (number 3) of course 11 as watched.\<close>

definition reqLevel3 :: level_complete_req where
  "reqLevel3 = \<lparr> lc_courseId = 11, lc_levelId = 22, lc_videoWatchedPercent = Some 100,
                 lc_quizScore = 0, lc_quizPassed = False \<rparr>"

definition answerQ5 :: "answer list" where
  "answerQ5 = [\<lparr> a_questionId = Some 5, a_selectedAnswer = Selected 0 \<rparr>]"

text \<open>
  Streaming. Course 10 is published and costs 500; course 13 is a draft that costs 300.
  Student 2 has an approved payment for course 10 and is at its frontier 1; student 3
  has a pending payment for it and no progress record. Level 60 and 61 are the levels 1
  and 2 of course 10; level 63 (no video yet) and 64 belong to the draft course.
\<close>

definition student3 :: user where
  "student3 = \<lparr> u_id = 3, u_role = Student \<rparr>"

definition draftCourse :: course where
  "draftCourse = \<lparr> price = 300, c_status = Draft \<rparr>"

definition level60 :: level where
  "level60 = \<lparr> l_id = 60, l_courseId = 10, levelNumber = 1, title = ''One'',
               description = ''Level one'', videoPath = Some ''/uploads/videos/one.mp4'',
               videoDuration = 30, quizId = None, quizEnabled = False, l_order = 0,
               l_status = LevelActive \<rparr>"

definition level61 :: level where
  "level61 = level60\<lparr> l_id := 61, levelNumber := 2, title := ''Two'',
               videoPath := Some ''https://drive.google.com/uc?export=download&id=abc'' \<rparr>"

definition level63 :: level where
  "level63 = level60\<lparr> l_id := 63, l_courseId := 13, videoPath := None \<rparr>"

definition level64 :: level where
  "level64 = level60\<lparr> l_id := 64, l_courseId := 13 \<rparr>"

definition payment2 :: "payment_status \<Rightarrow> payment" where
  "payment2 st = \<lparr> p_id = 70, transactionId = utf16 ''TXN-1'', proofImage = ''/uploads/payment-proofs/p.png'',
                   amount = 500, p_status = st, verifiedBy = Some 1, verifiedAt = Some 900,
                   rejectionReason = ''unreadable'', p_notes = ''checked'' \<rparr>"

definition progressAt1 :: progress where
  "progressAt1 = \<lparr> completedLevels = [], currentLevel = 1, totalProgress = 0,
                   courseCompleted = False, courseCompletedAt = None, lastAccessedAt = 1000 \<rparr>"

definition dbS :: db where
  "dbS = \<lparr> courses = [10 \<mapsto> paidCourse, 13 \<mapsto> draftCourse],
           levels = [level60, level61, level63, level64],
           quizzes = Map.empty,
           payments = [(2, 10) \<mapsto> payment2 Approved, (3, 10) \<mapsto> payment2 Pending],
           progresses = [(2, 10) \<mapsto> progressAt1],
           nextId = 100 \<rparr>"

text \<open>
  Payments. Student 3's payment for course 10 has been rejected; the student submits a
  new proof for it. The upload is kept under its local path.
\<close>

definition dbRejected :: db where
  "dbRejected = dbS\<lparr>payments := [(2, 10) \<mapsto> payment2 Approved, (3, 10) \<mapsto> payment2 Rejected]\<rparr>"

definition reqPay :: payment_req where
  "reqPay = \<lparr> rq_file = Some ''new.png'', rq_courseId = CourseId 10,
              rq_transactionId = Some (utf16 '' TXN-2 ''), rq_amount = Amount 450 \<rparr>"

text \<open>
  The same request with a transaction id of a no-break space and an em space, which
  \<open>trim\<close> removes.
\<close>

definition reqBlank :: payment_req where
  "reqBlank = reqPay\<lparr>rq_transactionId := Some [0xA0, 0x2003]\<rparr>"

definition keepLocal :: "string \<Rightarrow> string option" where
  "keepLocal localPath = Some localPath"

text \<open>
  The streaming database with the video of level 60 moved from the local file to an
  external link.
\<close>

definition dbMoved :: db where
  "dbMoved = dbS\<lparr>levels := [level60\<lparr>videoPath := Some ''https://res.cloudinary.com/v/one.mp4''\<rparr>,
                            level61, level63, level64]\<rparr>"

section \<open>Entitlement: theorems\<close>

lemma checkCourseAccess_visible:
  assumes "courses d cid = Some crs"
    and "u_role usr = Admin \<or> c_status crs = Published"
  shows "checkCourseAccess d usr cid =
           (Some crs, hasAccess_spec (u_role usr) (price crs)
                        (map_option p_status (payments d (u_id usr, cid))))"
  using assms
  by (auto simp: checkCourseAccess_def hasAccess_spec_def findApprovedPayment_def Let_def
      split: option.splits)

lemma getCourseStatus_student_hasAccess:
  assumes "getCourseStatus d usr cid = Inr body"
    and "courses d cid = Some crs"
    and "u_role usr \<noteq> Admin"
  shows "sb_hasAccess body =
           hasAccess_spec (u_role usr) (price crs)
             (map_option p_status (payments d (u_id usr, cid)))"
  using assms
  by (auto simp: getCourseStatus_def hasAccess_spec_def Let_def
      split: option.splits if_splits)

text \<open>
  C1. The access decision is true iff the caller is an admin, the course is free, or the
  pair's payment is approved. \<open>checkCourseAccess\<close> computes that decision, but the
  status endpoint leaves the admin role out: for an admin asking about a paid course
  with no payment record it answers \<open>hasAccess = false\<close>, where the rule (and
  \<open>checkCourseAccess\<close> on the same request) says true.
\<close>

theorem status_hasAccess_admin_paid_course:
  "map_sum id sb_hasAccess (getCourseStatus db0 admin1 10) = Inr False
   \<and> checkCourseAccess db0 admin1 10 = (Some paidCourse, True)
   \<and> hasAccess_spec (u_role admin1) (price paidCourse)
        (map_option p_status (payments db0 (u_id admin1, 10))) = True"
  by (simp add: getCourseStatus_def checkCourseAccess_def hasAccess_spec_def db0_def
      admin1_def paidCourse_def Let_def)

text \<open>
  C10. For a course the caller may see and no payment record of the caller's, the status
  field is \<open>free\<close> when the price is 0 and \<open>unpaid\<close> otherwise; with no progress
  record either, the reported progress and the reported currentLevel are both 0.
\<close>

theorem status_without_payment:
  assumes "courses d cid = Some crs"
    and "u_role usr = Admin \<or> c_status crs = Published"
    and "payments d (u_id usr, cid) = None"
  shows "\<exists>body. getCourseStatus d usr cid = Inr body
           \<and> sb_status body = (if price crs = 0 then ''free'' else ''unpaid'')
           \<and> (progresses d (u_id usr, cid) = None
                \<longrightarrow> sb_progress body = 0 \<and> sb_currentLevel body = 0)"
  using assms by (auto simp: getCourseStatus_def Let_def)

theorem status_without_payment_witness:
  "courses db0 10 = Some paidCourse
   \<and> (u_role student2 = Admin \<or> c_status paidCourse = Published)
   \<and> payments db0 (u_id student2, 10) = None
   \<and> progresses db0 (u_id student2, 10) = None
   \<and> (\<exists>body. getCourseStatus db0 student2 10 = Inr body
         \<and> sb_status body = ''unpaid''
         \<and> sb_progress body = 0 \<and> sb_currentLevel body = 0)"
  using status_without_payment [of db0 10 paidCourse student2]
  by (simp add: db0_def student2_def paidCourse_def)

section \<open>Auxiliary facts\<close>

lemma findIndex_nth: "map_option (\<lambda>i. xs ! i) (findIndex P xs) = find P xs"
  by (induction xs) (auto simp: option.map_comp comp_def)

lemma find_putLevelEntry:
  "P e \<Longrightarrow> find P (putLevelEntry xs (findIndex P xs) e) = Some e"
proof (induction xs)
  case Nil
  then show ?case by (simp add: putLevelEntry_def)
next
  case (Cons x xs)
  then show ?case
    by (cases "findIndex P xs") (auto simp: putLevelEntry_def)
qed


lemma js_or_zero: "js_or x 0 = x"
  by (simp add: js_or_def)

lemma max_js_or: "0 \<le> n \<Longrightarrow> max (js_or c 1) (n + 1) = max c (n + 1)"
  by (auto simp: js_or_def)

lemma markCompletion_currentLevel: "currentLevel (markCompletion g t now) = currentLevel g"
  by (simp add: markCompletion_def calculateProgress_def Let_def)

lemma markCompletion_completedLevels: "completedLevels (markCompletion g t now) = completedLevels g"
  by (simp add: markCompletion_def calculateProgress_def Let_def)


lemma unlockNext_fields:
  "currentLevel (unlockNext g lvl) = max (js_or (currentLevel g) 1) (levelNumber lvl + 1)"
  "completedLevels (unlockNext g lvl) = completedLevels g"
  by (simp_all add: unlockNext_def)

lemma ensureProgress_stored:
  assumes "ensureProgress d now uid cid = (g, d1)"
  shows "progresses d1 (uid, cid) = Some g"
    and "find (\<lambda>e. lp_levelId e = lid) (completedLevels g) = storedEntry d uid cid lid"
    and "currentLevel g = storedCurrentLevel d uid cid"
  using assms
  by (auto simp: ensureProgress_def storedEntry_def storedCurrentLevel_def newProgress_def
      split: option.splits)

text \<open>What an accepted quiz attempt returns and stores.\<close>

lemma recordQuizAttempt_Inr:
  assumes run: "recordQuizAttempt d1 now usr qz lvl answers prog = (Inr res, d')"
  defines "existing \<equiv> find (\<lambda>e. lp_levelId e = l_id lvl) (completedLevels prog)"
  shows "u_role usr = Admin \<or> attemptsUsedBefore existing < maxAttempts qz"
    and "score res = round_percent (correctCount (gradeQuiz qz answers)) (int (length (questions qz)))"
    and "passed res = (score res \<ge> passingScore qz)"
    and "correctAnswers res = correctCount (gradeQuiz qz answers)"
    and "totalQuestions res = int (length (questions qz))"
    and "attemptsUsed res = attemptsUsedBefore existing + 1"
    and "find (\<lambda>e. lp_levelId e = l_id lvl) (completedLevels (r_progress res))
           = Some (levelProgress lvl now existing (score res) (passed res))"
    and "currentLevel (r_progress res) =
           (if passed res \<and> watchedEnough existing
            then max (js_or (currentLevel prog) 1) (levelNumber lvl + 1)
            else currentLevel prog)"
    and "d' = saveProgress d1 (u_id usr) (q_courseId qz) (r_progress res)"
proof -
  let ?idx = "findIndex (\<lambda>e. lp_levelId e = l_id lvl) (completedLevels prog)"
  let ?scr = "round_percent (correctCount (gradeQuiz qz answers)) (int (length (questions qz)))"
  let ?pss = "?scr \<ge> passingScore qz"
  let ?g1 = "prog\<lparr>completedLevels :=
               putLevelEntry (completedLevels prog) ?idx (levelProgress lvl now existing ?scr ?pss)\<rparr>"
  let ?g2 = "if ?pss \<and> watchedEnough existing then unlockNext ?g1 lvl else ?g1"
  let ?g3 = "markCompletion ?g2 (countLevels d1 (q_courseId qz)) now"
  have ex: "map_option (\<lambda>i. completedLevels prog ! i) ?idx = existing"
    by (simp add: existing_def findIndex_nth)
  have open_run: "recordQuizAttempt d1 now usr qz lvl answers prog =
      (if u_role usr \<noteq> Admin \<and> attemptsUsedBefore existing \<ge> maxAttempts qz
       then (Inl (HttpError 400 ''Maximum attempts reached for this quiz''), d1)
       else if validProgress ?g3 (levelProgress lvl now existing ?scr ?pss)
         then (Inr \<lparr> score = ?scr, passed = ?pss, r_passingScore = passingScore qz,
                     correctAnswers = correctCount (gradeQuiz qz answers),
                     totalQuestions = int (length (questions qz)),
                     attemptsUsed = attemptsUsedBefore existing + 1,
                     r_maxAttempts = maxAttempts qz,
                     canRetry = (\<not> ?pss \<and> attemptsUsedBefore existing + 1 < maxAttempts qz),
                     results = gradeQuiz qz answers, r_progress = ?g3 \<rparr>,
               saveProgress d1 (u_id usr) (q_courseId qz) ?g3)
         else (Inl (HttpError 500 ''Server error''), d1))"
    unfolding recordQuizAttempt_def Let_def ex by simp
  from run have limit: "\<not> (u_role usr \<noteq> Admin \<and> attemptsUsedBefore existing \<ge> maxAttempts qz)"
    and valid: "validProgress ?g3 (levelProgress lvl now existing ?scr ?pss)"
    unfolding open_run by (auto split: if_splits)
  from run limit valid have res: "res = \<lparr> score = ?scr, passed = ?pss, r_passingScore = passingScore qz,
                     correctAnswers = correctCount (gradeQuiz qz answers),
                     totalQuestions = int (length (questions qz)),
                     attemptsUsed = attemptsUsedBefore existing + 1,
                     r_maxAttempts = maxAttempts qz,
                     canRetry = (\<not> ?pss \<and> attemptsUsedBefore existing + 1 < maxAttempts qz),
                     results = gradeQuiz qz answers, r_progress = ?g3 \<rparr>"
    and d': "d' = saveProgress d1 (u_id usr) (q_courseId qz) ?g3"
    unfolding open_run by simp_all
  show "u_role usr = Admin \<or> attemptsUsedBefore existing < maxAttempts qz"
    using limit by auto
  show "score res = ?scr" by (simp add: res)
  show "passed res = (score res \<ge> passingScore qz)" by (simp add: res)
  show "correctAnswers res = correctCount (gradeQuiz qz answers)" by (simp add: res)
  show "totalQuestions res = int (length (questions qz))" by (simp add: res)
  show "attemptsUsed res = attemptsUsedBefore existing + 1" by (simp add: res)
  show "d' = saveProgress d1 (u_id usr) (q_courseId qz) (r_progress res)" by (simp add: res d')
  have lp: "lp_levelId (levelProgress lvl now existing ?scr ?pss) = l_id lvl"
    by (simp add: levelProgress_def Let_def)
  have cl: "completedLevels ?g3 =
      putLevelEntry (completedLevels prog) ?idx (levelProgress lvl now existing ?scr ?pss)"
    by (simp add: markCompletion_completedLevels unlockNext_fields)
  have "find (\<lambda>e. lp_levelId e = l_id lvl) (completedLevels ?g3)
          = Some (levelProgress lvl now existing ?scr ?pss)"
    unfolding cl by (rule find_putLevelEntry) (rule lp)
  then show "find (\<lambda>e. lp_levelId e = l_id lvl) (completedLevels (r_progress res))
           = Some (levelProgress lvl now existing (score res) (passed res))"
    by (simp add: res)
  show "currentLevel (r_progress res) =
           (if passed res \<and> watchedEnough existing
            then max (js_or (currentLevel prog) 1) (levelNumber lvl + 1)
            else currentLevel prog)"
    by (simp add: res markCompletion_currentLevel unlockNext_fields)
qed


lemma find_append:
  "find P (xs @ ys) = (case find P xs of None \<Rightarrow> find P ys | Some x \<Rightarrow> Some x)"
  by (induction xs) simp_all

lemma answerMap_find:
  "answerMap as m q =
     (case find (\<lambda>a. a_questionId a = Some q) (rev as) of
        None \<Rightarrow> m q
      | Some a \<Rightarrow> Some (case parsedAnswer (a_selectedAnswer a) of Some n \<Rightarrow> n | None \<Rightarrow> - 1))"
proof (induction as arbitrary: m)
  case Nil
  then show ?case by simp
next
  case (Cons a as)
  show ?case
  proof (cases "find (\<lambda>a. a_questionId a = Some q) (rev as)")
    case None
    then show ?thesis
      by (cases "a_questionId a") (simp_all add: Cons.IH find_append)
  next
    case (Some b)
    then show ?thesis
      by (cases "a_questionId a") (simp_all add: Cons.IH find_append)
  qed
qed

lemma gradeQuestion_isCorrect:
  "qr_isCorrect (gradeQuestion (answerMap answers Map.empty) q) = answeredCorrectly answers q"
  by (simp add: gradeQuestion_def answerMap_find answeredCorrectly_def lastAnswer_def Let_def
      split: option.splits)

lemma correctCount_gradeQuiz:
  "correctCount (gradeQuiz qz answers) =
     int (length (filter (answeredCorrectly answers) (questions qz)))"
  by (simp add: correctCount_def gradeQuiz_def filter_map comp_def gradeQuestion_isCorrect)

text \<open>The double arithmetic of the percentage.\<close>

lemma bit_length_upper: "n < 2 ^ bit_length n"
proof (induction n rule: bit_length.induct)
  case (1 n)
  show ?case
  proof (cases "n = 0")
    case True
    then show ?thesis by (simp add: bit_length.simps)
  next
    case False
    from 1 [OF False] have "n div 2 < 2 ^ bit_length (n div 2)" .
    then have "n < 2 * 2 ^ bit_length (n div 2)" by linarith
    with False show ?thesis by (subst bit_length.simps) simp
  qed
qed

lemma bit_length_lower: "0 < n \<Longrightarrow> 2 ^ (bit_length n - 1) \<le> n"
proof (induction n rule: bit_length.induct)
  case (1 n)
  then have n: "n \<noteq> 0" by simp
  show ?case
  proof (cases "n div 2 = 0")
    case True
    with n have "bit_length n = 1" by (simp add: bit_length.simps [of n] bit_length.simps [of 0])
    with 1 show ?thesis by simp
  next
    case False
    with 1(1) [OF n] have ih: "2 ^ (bit_length (n div 2) - 1) \<le> n div 2" by simp
    from False have "bit_length (n div 2) \<noteq> 0" by (simp add: bit_length.simps [of "n div 2"])
    then obtain b where b: "bit_length (n div 2) = Suc b" by (cases "bit_length (n div 2)") auto
    with ih have "2 * 2 ^ b \<le> n" by simp
    with n b show ?thesis by (simp add: bit_length.simps [of n])
  qed
qed

lemma bit_length_le: "n < 2 ^ b \<Longrightarrow> bit_length n \<le> b"
proof (cases "n = 0")
  case True
  then show ?thesis by (simp add: bit_length.simps)
next
  case False
  assume "n < 2 ^ b"
  with bit_length_lower [of n] False have "(2::nat) ^ (bit_length n - 1) < 2 ^ b"
    by (metis le_less_trans neq0_conv)
  then have "bit_length n - 1 < b" by (rule power_less_imp_less_exp [rotated]) simp
  then show ?thesis by simp
qed

lemma bit_length_mono: "a \<le> b \<Longrightarrow> bit_length a \<le> bit_length b"
  using bit_length_le [of a "bit_length b"] bit_length_upper [of b] by simp

lemma roundHalfEven_nonneg: "0 \<le> n \<Longrightarrow> 0 < d \<Longrightarrow> 0 \<le> roundHalfEven n d"
  by (simp add: roundHalfEven_def Let_def pos_imp_zdiv_nonneg_iff)

lemma roundHalfEven_le:
  assumes d: "0 < d" and le: "n \<le> M * d"
  shows "roundHalfEven n d \<le> M"
proof (cases "n div d < M")
  case True
  then show ?thesis by (simp add: roundHalfEven_def Let_def)
next
  case False
  have "n div d \<le> (M * d) div d" using le d by (rule zdiv_mono1)
  with d have "n div d \<le> M" by simp
  with False have q: "n div d = M" by simp
  have "n = d * (n div d) + n mod d" by simp
  with q le have "n mod d \<le> 0" by (simp add: mult.commute)
  with d have "n mod d = 0" by (simp add: order_antisym)
  with q d show ?thesis by (simp add: roundHalfEven_def Let_def)
qed

lemma roundHalfEven_one: "roundHalfEven n 1 = n"
  by (simp add: roundHalfEven_def Let_def)


lemma Math_round_bounds:
  assumes m: "0 \<le> m" and le: "m * 2 ^ nat e \<le> 100 * 2 ^ nat (- e)"
  shows "0 \<le> Math_round (m, e) \<and> Math_round (m, e) \<le> 100"
proof (cases "0 \<le> e")
  case True
  with m le show ?thesis by (simp add: Math_round_def)
next
  case False
  define E where "E = nat (- e)"
  have p: "(0::int) < 2 ^ E" by simp
  from False le have le': "m \<le> 100 * 2 ^ E" by (simp add: E_def)
  have "2 * m + 2 ^ E \<le> 201 * 2 ^ E" using le' by simp
  then have "(2 * m + 2 ^ E) div 2 ^ (E + 1) \<le> (201 * 2 ^ E) div 2 ^ (E + 1)"
    by (rule zdiv_mono1) simp
  also have "\<dots> = 201 div (2::int)" using p by simp
  finally have up: "(2 * m + 2 ^ E) div 2 ^ (E + 1) \<le> 100" by simp
  have "0 \<le> (2 * m + 2 ^ E) div 2 ^ (E + 1)"
    using m by (simp add: pos_imp_zdiv_nonneg_iff)
  with up False show ?thesis by (simp add: Math_round_def E_def)
qed

lemma round53_quotient:
  assumes c: "0 < c" and le: "c \<le> t"
  obtains m S where "round53 c t = (m, - int S)" and "0 \<le> m" and "m \<le> 2 ^ S"
proof -
  define k where "k = int (bit_length (nat c)) - int (bit_length (nat t))"
  define s0 where "s0 = 53 - k"
  define s where "s = (if (c * 2 ^ nat s0) div (t * 2 ^ nat (- s0)) \<ge> 2 ^ 53 then s0 - 1 else s0)"
  have "bit_length (nat c) \<le> bit_length (nat t)"
    using le by (intro bit_length_mono) simp
  then have "k \<le> 0" by (simp add: k_def)
  then have s: "52 \<le> s" by (simp add: s_def s0_def)
  then have neg: "nat (- s) = 0" by simp
  have "round53 c t = (roundHalfEven (c * 2 ^ nat s) (t * 2 ^ nat (- s)), - s)"
    by (simp only: round53_def Let_def s_def s0_def k_def)
  then have r: "round53 c t = (roundHalfEven (c * 2 ^ nat s) t, - int (nat s))"
    using s by (simp add: neg)
  have t: "0 < t" using c le by simp
  have "c * 2 ^ nat s \<le> 2 ^ nat s * t" using le by simp
  with t have up: "roundHalfEven (c * 2 ^ nat s) t \<le> 2 ^ nat s" by (rule roundHalfEven_le)
  have nn: "0 \<le> roundHalfEven (c * 2 ^ nat s) t"
    using c t by (intro roundHalfEven_nonneg) simp_all
  from r nn up show thesis by (rule that)
qed

lemma times100_bounds:
  assumes m: "0 \<le> m" and le: "m \<le> 2 ^ S"
  obtains m2 e where "times100 (m, - int S) = (m2, e)" and "0 \<le> m2"
    and "m2 * 2 ^ nat e \<le> 100 * 2 ^ nat (- e)"
proof (cases "m = 0")
  case True
  then have "times100 (m, - int S) = (0, 0)" by (simp add: times100_def)
  then show thesis by (rule that) simp_all
next
  case False
  with m have pos: "0 < m" by simp
  define N where "N = 100 * m"
  have N: "0 < N" "N \<le> 100 * 2 ^ S" using pos le by (simp_all add: N_def)
  define k where "k = int (bit_length (nat N)) - int (bit_length (nat 1))"
  define s0 where "s0 = 53 - k"
  define s where "s = (if (N * 2 ^ nat s0) div (1 * 2 ^ nat (- s0)) \<ge> 2 ^ 53 then s0 - 1 else s0)"
  define m2 where "m2 = roundHalfEven (N * 2 ^ nat s) (1 * 2 ^ nat (- s))"
  have r: "round53 N 1 = (m2, - s)"
    by (simp only: round53_def Let_def m2_def s_def s0_def k_def)
  have t: "times100 (m, - int S) = (m2, - s - int S)"
    using False r by (simp add: times100_def N_def)
  have "nat N < 2 ^ (S + 7)"
  proof -
    have "N < 128 * 2 ^ S" using N(2) by (smt (verit) zero_less_power)
    then have "N < 2 ^ (S + 7)" by (simp add: power_add)
    then show ?thesis using N(1) by (simp add: nat_less_iff)
  qed
  then have "bit_length (nat N) \<le> S + 7" by (rule bit_length_le)
  moreover have "bit_length (nat 1) = 1" by (simp add: bit_length.simps [of "Suc 0"] bit_length.simps [of 0])
  ultimately have "s0 \<ge> 47 - int S" by (simp add: s0_def k_def)
  then have s: "- s \<le> int S - 46" by (simp add: s_def)
  have m2: "0 \<le> m2"
    unfolding m2_def using N(1) by (intro roundHalfEven_nonneg) simp_all
  have "m2 * 2 ^ nat (- s - int S) \<le> 100 * 2 ^ nat (- (- s - int S))"
  proof (cases "0 \<le> s")
    case True
    then have "m2 = N * 2 ^ nat s" by (simp add: m2_def roundHalfEven_one)
    moreover have "nat (- s - int S) = 0" using True by simp
    moreover have "nat (- (- s - int S)) = nat s + S" using True by simp
    ultimately show ?thesis using N(2) by (simp add: power_add)
  next
    case False
    define j where "j = nat (- s)"
    from False s have j: "j \<le> S" "- s = int j" by (simp_all add: j_def)
    from False have m2j: "m2 = roundHalfEven N (2 ^ j)" by (simp add: m2_def j_def)
    have "(2::int) ^ (S - j) * 2 ^ j = 2 ^ S"
      using j(1) by (simp add: power_add [symmetric])
    then have "N \<le> (100 * 2 ^ (S - j)) * 2 ^ j"
      using N(2) by simp
    then have "m2 \<le> 100 * 2 ^ (S - j)"
      unfolding m2j by (intro roundHalfEven_le) simp_all
    moreover have "nat (- s - int S) = 0" using j by simp
    moreover have "nat (- (- s - int S)) = S - j" using j by simp
    ultimately show ?thesis by simp
  qed
  with t m2 show thesis by (rule that)
qed

lemma round_percent_bounds:
  assumes "0 \<le> c" and "c \<le> t"
  shows "0 \<le> round_percent c t \<and> round_percent c t \<le> 100"
proof (cases "c = 0")
  case True
  then show ?thesis by (simp add: round_percent_def)
next
  case False
  with assms have c: "0 < c" and t: "0 < t" by simp_all
  from c assms(2) obtain m S where q: "round53 c t = (m, - int S)" and m: "0 \<le> m" "m \<le> 2 ^ S"
    by (rule round53_quotient)
  from m obtain m2 e where p: "times100 (m, - int S) = (m2, e)" and m2: "0 \<le> m2"
    "m2 * 2 ^ nat e \<le> 100 * 2 ^ nat (- e)"
    by (rule times100_bounds)
  from Math_round_bounds [OF m2] c t show ?thesis
    by (simp add: round_percent_def q p)
qed

text \<open>
  The pairs are the doubles of IEEE 754: \<open>round53\<close> gives the one double nearest to
  the quotient, \<open>times100\<close> the one double nearest to the product, and
  \<open>Math_round\<close> the floor of the double plus one half.
\<close>

lemma roundHalfEven_nearest:
  assumes "0 < d"
  shows "2 * \<bar>n - roundHalfEven n d * d\<bar> \<le> d"
    and "2 * \<bar>n - roundHalfEven n d * d\<bar> = d \<Longrightarrow> even (roundHalfEven n d)"
proof -
  define q where "q = n div d"
  define r where "r = n mod d"
  have n: "n = q * d + r" by (simp add: q_def r_def)
  have r: "0 \<le> r" "r < d" using assms by (simp_all add: r_def)
  have up: "roundHalfEven n d = (if 2 * r > d \<or> (2 * r = d \<and> odd q) then q + 1 else q)"
    by (simp add: roundHalfEven_def Let_def q_def r_def)
  show "2 * \<bar>n - roundHalfEven n d * d\<bar> \<le> d"
    unfolding up using n r by (auto simp: algebra_simps)
  show "even (roundHalfEven n d)" if "2 * \<bar>n - roundHalfEven n d * d\<bar> = d"
    using that unfolding up using n r by (auto simp: algebra_simps split: if_splits)
qed

lemma pow2_ratio: "(2::real) ^ nat s / 2 ^ nat (- s) = 2 powi s"
  by (cases "0 \<le> s") (simp_all add: power_int_def field_simps)

lemma bit_length_real:
  assumes "0 < n"
  shows "2 powi (int (bit_length (nat n)) - 1) \<le> real_of_int n"
    and "real_of_int n < 2 powi (int (bit_length (nat n)))"
proof -
  have pos: "0 < nat n" using assms by simp
  from bit_length_lower [OF pos] have "2 ^ (bit_length (nat n) - 1) \<le> nat n" .
  then have "real (2 ^ (bit_length (nat n) - 1)) \<le> real (nat n)"
    by (rule iffD2 [OF of_nat_le_iff])
  moreover have "0 < bit_length (nat n)"
    using pos by (simp add: bit_length.simps [of "nat n"])
  ultimately show "2 powi (int (bit_length (nat n)) - 1) \<le> real_of_int n"
    using assms by (simp add: power_int_def nat_diff_distrib')
  from bit_length_upper [of "nat n"] have "real (nat n) < real (2 ^ bit_length (nat n))"
    by (rule iffD2 [OF of_nat_less_iff])
  then show "real_of_int n < 2 powi (int (bit_length (nat n)))"
    using assms by simp
qed


lemma scaled_quotient:
  assumes "0 < d"
  shows "real_of_int (n * 2 ^ nat s) / real_of_int (d * 2 ^ nat (- s))
           = real_of_int n / real_of_int d * 2 powi s"
proof -
  have "real_of_int (n * 2 ^ nat s) / real_of_int (d * 2 ^ nat (- s))
          = real_of_int n / real_of_int d * (2 ^ nat s / 2 ^ nat (- s))"
    by simp
  then show ?thesis by (simp only: pow2_ratio)
qed

lemma quotient_binade:
  assumes n: "0 < n" and d: "0 < d"
  defines "k \<equiv> int (bit_length (nat n)) - int (bit_length (nat d))"
  shows "2 powi (k - 1) < real_of_int n / real_of_int d"
    and "real_of_int n / real_of_int d < 2 powi (k + 1)"
proof -
  let ?bn = "int (bit_length (nat n))" and ?bd = "int (bit_length (nat d))"
  note bn = bit_length_real [OF n] and bd = bit_length_real [OF d]
  have dpos: "0 < real_of_int d" using d by simp
  have "2 powi (k - 1) * real_of_int d < 2 powi (k - 1) * 2 powi ?bd"
    using bd(2) by (intro mult_strict_left_mono) simp_all
  also have "\<dots> = 2 powi (?bn - 1)"
    by (subst power_int_add [symmetric]) (simp_all add: k_def)
  also have "\<dots> \<le> real_of_int n" by (rule bn(1))
  finally show "2 powi (k - 1) < real_of_int n / real_of_int d"
    using dpos by (simp add: pos_less_divide_eq)
  have "real_of_int n < 2 powi ?bn" by (rule bn(2))
  also have "\<dots> = 2 powi (k + 1) * 2 powi (?bd - 1)"
    by (subst power_int_add [symmetric]) (simp_all add: k_def)
  also have "\<dots> \<le> 2 powi (k + 1) * real_of_int d"
    using bd(1) by (intro mult_left_mono) simp_all
  finally show "real_of_int n / real_of_int d < 2 powi (k + 1)"
    using dpos by (simp add: pos_divide_less_eq)
qed

lemma round53_spec:
  assumes n: "0 < n" and d: "0 < d" and r: "round53 n d = (m, e)"
  defines "x \<equiv> real_of_int n / real_of_int d * 2 powi (- e)"
  shows "2 ^ 52 \<le> x" and "x < 2 ^ 53"
    and "\<bar>x - real_of_int m\<bar> \<le> 1 / 2"
    and "\<bar>x - real_of_int m\<bar> = 1 / 2 \<Longrightarrow> even m"
proof -
  define q where "q = real_of_int n / real_of_int d"
  define k where "k = int (bit_length (nat n)) - int (bit_length (nat d))"
  define s0 where "s0 = 53 - k"
  define m0 where "m0 = (n * 2 ^ nat s0) div (d * 2 ^ nat (- s0))"
  define s where "s = (if m0 \<ge> 2 ^ 53 then s0 - 1 else s0)"
  define N where "N = n * 2 ^ nat s"
  define D where "D = d * 2 ^ nat (- s)"
  have "round53 n d = (roundHalfEven N D, - s)"
    by (simp only: round53_def Let_def N_def D_def s_def m0_def s0_def k_def)
  with r have m: "m = roundHalfEven N D" and e: "e = - s" by simp_all
  have D: "0 < D" using d by (simp add: D_def)
  have ND: "real_of_int N / real_of_int D = q * 2 powi s"
    unfolding N_def D_def q_def using d by (rule scaled_quotient)
  have x: "x = real_of_int N / real_of_int D"
    by (simp add: x_def e ND q_def)
  from quotient_binade [OF n d]
  have lo: "2 powi (k - 1) < q" and hi: "q < 2 powi (k + 1)"
    by (simp_all add: k_def q_def)
  have lo0: "2 ^ 52 < q * 2 powi s0"
  proof -
    have "(2::real) ^ 52 = 2 powi (k - 1) * 2 powi s0"
      by (subst power_int_add [symmetric]) (simp_all add: s0_def)
    also have "\<dots> < q * 2 powi s0"
      using lo by (intro mult_strict_right_mono) simp_all
    finally show ?thesis .
  qed
  have hi0: "q * 2 powi s0 < 2 ^ 54"
  proof -
    have "q * 2 powi s0 < 2 powi (k + 1) * 2 powi s0"
      using hi by (intro mult_strict_right_mono) simp_all
    also have "\<dots> = 2 ^ 54"
      by (subst power_int_add [symmetric]) (simp_all add: s0_def)
    finally show ?thesis .
  qed
  have "real_of_int (n * 2 ^ nat s0) / real_of_int (d * 2 ^ nat (- s0)) = q * 2 powi s0"
    unfolding q_def using d by (rule scaled_quotient)
  moreover have "m0 = \<lfloor>real_of_int (n * 2 ^ nat s0) / real_of_int (d * 2 ^ nat (- s0))\<rfloor>"
    unfolding m0_def by (rule floor_divide_of_int_eq [symmetric])
  ultimately have m0: "m0 = \<lfloor>q * 2 powi s0\<rfloor>"
    by (simp only:)
  have half: "q * 2 powi (s0 - 1) = q * 2 powi s0 / 2"
    by (simp add: power_int_diff)
  have range: "2 ^ 52 \<le> q * 2 powi s \<and> q * 2 powi s < 2 ^ 53"
  proof (cases "m0 \<ge> 2 ^ 53")
    case True
    then have "2 ^ 53 \<le> q * 2 powi s0"
      unfolding m0 by (simp add: le_floor_iff)
    with hi0 True show ?thesis
      by (simp add: s_def half)
  next
    case False
    then have "q * 2 powi s0 < 2 ^ 53"
      unfolding m0 by (simp add: floor_less_iff)
    with lo0 False show ?thesis
      by (simp add: s_def)
  qed
  then show "2 ^ 52 \<le> x" and "x < 2 ^ 53"
    by (simp_all add: x ND)
  note near = roundHalfEven_nearest [OF D, of N, folded m]
  have dist: "\<bar>x - real_of_int m\<bar> = real_of_int \<bar>N - m * D\<bar> / real_of_int D"
  proof -
    have "x - real_of_int m = real_of_int (N - m * D) / real_of_int D"
      using D by (simp add: x field_simps)
    then show ?thesis using D by (simp add: abs_divide)
  qed
  have "real_of_int (2 * \<bar>N - m * D\<bar>) \<le> real_of_int D"
    using near(1) by (simp only: of_int_le_iff)
  then show "\<bar>x - real_of_int m\<bar> \<le> 1 / 2"
    unfolding dist using D by (simp add: field_simps)
  show "even m" if "\<bar>x - real_of_int m\<bar> = 1 / 2"
  proof -
    from that have "real_of_int (2 * \<bar>N - m * D\<bar>) = real_of_int D"
      unfolding dist using D by (simp add: field_simps)
    then have "2 * \<bar>N - m * D\<bar> = D"
      by (simp only: of_int_eq_iff)
    then show ?thesis by (rule near(2))
  qed
qed


lemma round53_nearest:
  assumes "0 < n" and "0 < d"
  shows "nearest_double (real_of_int n / real_of_int d) (round53 n d)"
proof -
  obtain m e where r: "round53 n d = (m, e)" by (cases "round53 n d")
  from round53_spec [OF assms r] show ?thesis
    by (simp add: nearest_double_def r)
qed

lemma nearest_double_positive:
  assumes "nearest_double x (m, e)"
  shows "0 < m"
proof -
  from assms have "2 ^ 52 \<le> x * 2 powi (- e)" and "\<bar>x * 2 powi (- e) - real_of_int m\<bar> \<le> 1 / 2"
    by (simp_all add: nearest_double_def)
  moreover have "(1::real) \<le> 2 ^ 52" by simp
  ultimately have "0 < real_of_int m" by linarith
  then show ?thesis by simp
qed

lemma times100_nearest:
  assumes "0 < m"
  shows "nearest_double (100 * double_value (m, e)) (times100 (m, e))"
proof -
  obtain m2 e2 where r: "round53 (100 * m) 1 = (m2, e2)" by (cases "round53 (100 * m) 1")
  have t: "times100 (m, e) = (m2, e2 + e)"
    using assms by (simp add: times100_def r)
  have "100 * double_value (m, e) * 2 powi (- (e2 + e))
          = real_of_int (100 * m) * (2 powi e * 2 powi (- (e2 + e)))"
    by (simp add: double_value_def)
  also have "2 powi e * 2 powi (- (e2 + e)) = (2::real) powi (- e2)"
    by (subst power_int_add [symmetric]) simp_all
  finally have x: "100 * double_value (m, e) * 2 powi (- (e2 + e))
          = real_of_int (100 * m) / real_of_int 1 * 2 powi (- e2)"
    by simp
  have "0 < 100 * m" using assms by simp
  from round53_spec [OF this _ r, folded x] show ?thesis
    unfolding t nearest_double_def by simp
qed

lemma Math_round_floor: "Math_round (m, e) = \<lfloor>double_value (m, e) + 1 / 2\<rfloor>"
proof (cases "0 \<le> e")
  case True
  then have "double_value (m, e) = real_of_int (m * 2 ^ nat e)"
    by (simp add: double_value_def power_int_def)
  then have "\<lfloor>double_value (m, e) + 1 / 2\<rfloor> = m * 2 ^ nat e"
    by (simp only: floor_eq_iff) simp
  with True show ?thesis by (simp add: Math_round_def)
next
  case False
  define E where "E = nat (- e)"
  from False have "double_value (m, e) = real_of_int m / 2 ^ E"
    by (simp add: double_value_def power_int_def E_def field_simps)
  then have "double_value (m, e) + 1 / 2 = real_of_int (2 * m + 2 ^ E) / real_of_int (2 ^ (E + 1))"
    by (simp add: field_simps)
  then have "\<lfloor>double_value (m, e) + 1 / 2\<rfloor> = (2 * m + 2 ^ E) div 2 ^ (E + 1)"
    by (simp only: floor_divide_of_int_eq)
  with False show ?thesis by (simp add: Math_round_def E_def)
qed

lemma round_percent_spec:
  assumes "0 < c" and "0 < t"
  shows "\<exists>q p. nearest_double (real_of_int c / real_of_int t) q
            \<and> nearest_double (100 * double_value q) p
            \<and> round_percent c t = \<lfloor>double_value p + 1 / 2\<rfloor>"
proof -
  obtain m e where q: "round53 c t = (m, e)" by (cases "round53 c t")
  have nq: "nearest_double (real_of_int c / real_of_int t) (m, e)"
    using round53_nearest [OF assms] by (simp add: q)
  then have "0 < m" by (rule nearest_double_positive)
  then have np: "nearest_double (100 * double_value (m, e)) (times100 (m, e))"
    by (rule times100_nearest)
  obtain m2 e2 where p: "times100 (m, e) = (m2, e2)" by (cases "times100 (m, e)")
  have "round_percent c t = \<lfloor>double_value (m2, e2) + 1 / 2\<rfloor>"
    using assms by (simp add: round_percent_def q p Math_round_floor)
  with nq np show ?thesis unfolding p by blast
qed

lemma nearest_double_unique:
  assumes a: "nearest_double x (m1, e1)" and b: "nearest_double x (m2, e2)"
  shows "m1 = m2 \<and> e1 = e2"
proof -
  from a have a1: "2 ^ 52 \<le> x * 2 powi (- e1)" "x * 2 powi (- e1) < 2 ^ 53"
    and a2: "\<bar>x * 2 powi (- e1) - real_of_int m1\<bar> \<le> 1 / 2"
    and a3: "\<bar>x * 2 powi (- e1) - real_of_int m1\<bar> = 1 / 2 \<Longrightarrow> even m1"
    by (simp_all add: nearest_double_def)
  from b have b1: "2 ^ 52 \<le> x * 2 powi (- e2)" "x * 2 powi (- e2) < 2 ^ 53"
    and b2: "\<bar>x * 2 powi (- e2) - real_of_int m2\<bar> \<le> 1 / 2"
    and b3: "\<bar>x * 2 powi (- e2) - real_of_int m2\<bar> = 1 / 2 \<Longrightarrow> even m2"
    by (simp_all add: nearest_double_def)
  have shift: "e < e' \<Longrightarrow> 2 * (y * 2 powi (- e')) \<le> y * 2 powi (- e)" if "0 < y" for e e' :: int and y :: real
  proof -
    assume "e < e'"
    then have "(2::real) powi (1 - e') \<le> 2 powi (- e)"
      by (intro power_int_increasing) simp_all
    moreover have "(2::real) powi (1 - e') = 2 * 2 powi (- e')"
      by (simp add: power_int_diff power_int_minus field_simps)
    ultimately have "2 * 2 powi (- e') \<le> (2::real) powi (- e)" by simp
    then have "y * (2 * 2 powi (- e')) \<le> y * 2 powi (- e)"
      using that by (intro mult_left_mono) simp_all
    then show ?thesis by (simp add: mult_ac)
  qed
  have xpos: "0 < x"
  proof (rule ccontr)
    assume "\<not> 0 < x"
    then have "x * 2 powi (- e1) \<le> 0"
      by (simp add: mult_nonpos_nonneg)
    with a1(1) show False by simp
  qed
  have e: "e1 = e2"
  proof (rule ccontr)
    assume "e1 \<noteq> e2"
    then consider "e1 < e2" | "e2 < e1" by linarith
    then show False
    proof cases
      case 1
      from shift [OF xpos 1] b1(1) a1(2) show False by simp
    next
      case 2
      from shift [OF xpos 2] a1(1) b1(2) show False by simp
    qed
  qed
  define y where "y = x * 2 powi (- e1)"
  note a2' = a2 [folded y_def] and a3' = a3 [folded y_def]
    and b2' = b2 [folded e, folded y_def] and b3' = b3 [folded e, folded y_def]
  have "m1 = m2"
  proof (rule ccontr)
    assume ne: "m1 \<noteq> m2"
    from a2' b2' have "\<bar>real_of_int m1 - real_of_int m2\<bar> \<le> 1" by linarith
    then have "\<bar>m1 - m2\<bar> \<le> 1" by (metis of_int_abs of_int_diff of_int_le_1_iff)
    with ne have d: "m1 = m2 + 1 \<or> m2 = m1 + 1" by linarith
    then have "real_of_int m1 = real_of_int m2 + 1 \<or> real_of_int m2 = real_of_int m1 + 1"
      by auto
    then have "\<bar>y - real_of_int m1\<bar> = 1 / 2 \<and> \<bar>y - real_of_int m2\<bar> = 1 / 2"
      using a2' b2' by (elim disjE; intro conjI; linarith)
    then have "even m1" "even m2" using a3' b3' by simp_all
    with d show False by auto
  qed
  with e show ?thesis by simp
qed

lemma round_percent_values:
  "round_percent 0 2 = 0" "round_percent 1 2 = 50" "round_percent 1 1 = 100"
  "round_percent 0 4 = 0" "round_percent 3 4 = 75" "round_percent 23 40 = 57"
  by (simp_all add: round_percent_def Math_round_def times100_def round53_def roundHalfEven_def
      bit_length.simps Let_def)

lemma quizGuards_Inr:
  assumes "quizGuards d usr qid = Inr (qz, lvl)"
  shows "quizzes d qid = Some qz"
    and "findLevel d (q_levelId qz) = Some lvl"
    and "questions qz \<noteq> []"
  using assms
  by (auto simp: quizGuards_def split: option.splits if_splits)

lemma submitQuiz_Inr:
  assumes run: "submitQuiz d now usr qid answers = (Inr res, d')"
    and quiz: "quizzes d qid = Some qz"
    and lvl: "findLevel d (q_levelId qz) = Some lvl"
  obtains prog d1 where "ensureProgress d now (u_id usr) (q_courseId qz) = (prog, d1)"
    and "recordQuizAttempt d1 now usr qz lvl answers prog = (Inr res, d')"
    and "questions qz \<noteq> []"
proof -
  obtain prog d1 where ens: "ensureProgress d now (u_id usr) (q_courseId qz) = (prog, d1)"
    by (cases "ensureProgress d now (u_id usr) (q_courseId qz)")
  from run obtain qz' lvl' where g: "quizGuards d usr qid = Inr (qz', lvl')"
    by (cases "quizGuards d usr qid") (auto simp: submitQuiz_def)
  from quizGuards_Inr [OF g] quiz lvl have eq: "qz' = qz" "lvl' = lvl" and ne: "questions qz \<noteq> []"
    by auto
  from run g eq ens have "recordQuizAttempt d1 now usr qz lvl answers prog = (Inr res, d')"
    by (simp add: submitQuiz_def)
  then show thesis using ens ne that by blast
qed

lemma stored_after_save:
  "progresses (saveProgress d1 uid cid g) (uid, cid) = Some g"
  by (simp add: saveProgress_def)

lemma attemptsUsedBefore_stored:
  "ensureProgress d now uid cid = (prog, d1) \<Longrightarrow>
   attemptsUsedBefore (find (\<lambda>e. lp_levelId e = lid) (completedLevels prog))
     = storedAttempts d uid cid lid"
  by (simp add: ensureProgress_stored attemptsUsedBefore_def storedAttempts_def js_or_zero
      split: option.splits)

lemma ensureProgress_keeps_attempts:
  "ensureProgress d now uid cid = (prog, d1) \<Longrightarrow>
   storedAttempts d1 uid cid lid = storedAttempts d uid cid lid"
  by (auto simp: ensureProgress_def storedAttempts_def storedEntry_def newProgress_def
      split: option.splits)

lemma watchedEnough_stored:
  "ensureProgress d now uid cid = (prog, d1) \<Longrightarrow>
   watchedEnough (find (\<lambda>e. lp_levelId e = lid) (completedLevels prog))
     = (storedWatched d uid cid lid \<ge> 90)"
  by (simp add: ensureProgress_stored watchedEnough_def storedWatched_def js_or_zero
      split: option.splits)


lemma recordQuizAttempt_cases:
  fixes prog lvl
  defines "existing \<equiv> find (\<lambda>e. lp_levelId e = l_id lvl) (completedLevels prog)"
  shows "(u_role usr \<noteq> Admin \<and> attemptsUsedBefore existing \<ge> maxAttempts qz
            \<and> recordQuizAttempt d1 now usr qz lvl answers prog
                = (Inl (HttpError 400 ''Maximum attempts reached for this quiz''), d1))
       \<or> ((u_role usr = Admin \<or> attemptsUsedBefore existing < maxAttempts qz)
            \<and> (recordQuizAttempt d1 now usr qz lvl answers prog
                   = (Inl (HttpError 500 ''Server error''), d1)
                \<or> (\<exists>res d'. recordQuizAttempt d1 now usr qz lvl answers prog = (Inr res, d'))))"
proof -
  have ex: "map_option (\<lambda>i. completedLevels prog ! i)
              (findIndex (\<lambda>e. lp_levelId e = l_id lvl) (completedLevels prog)) = existing"
    by (simp add: existing_def findIndex_nth)
  show ?thesis
    unfolding recordQuizAttempt_def Let_def ex by auto
qed

lemma submitQuiz_guarded:
  assumes "quizGuards d usr qid = Inr (qz, lvl)"
    and "ensureProgress d now (u_id usr) (q_courseId qz) = (prog, d1)"
  shows "submitQuiz d now usr qid answers = recordQuizAttempt d1 now usr qz lvl answers prog"
  using assms by (simp add: submitQuiz_def)

text \<open>
  The save of a quiz attempt passes the validators when the stored watched percentage
  of the level is one, and the entries of the record, with the one of this level, are
  not more than the levels of the course.
\<close>

lemma length_putLevelEntry:
  "length (putLevelEntry xs (findIndex P xs) e)
     = length xs + (if find P xs = None then 1 else 0)"
proof -
  have "(find P xs = None) = (findIndex P xs = None)"
    by (simp add: findIndex_nth [symmetric])
  then show ?thesis
    by (cases "findIndex P xs") (auto simp: putLevelEntry_def)
qed

lemma markCompletion_totalProgress:
  assumes "int (length (completedLevels g)) \<le> t" and "0 < t"
  shows "0 \<le> totalProgress (markCompletion g t now) \<and> totalProgress (markCompletion g t now) \<le> 100"
proof -
  have "int (length (filter completed (completedLevels g))) \<le> int (length (completedLevels g))"
    by simp
  with assms(1) have "int (length (filter completed (completedLevels g))) \<le> t"
    by linarith
  then have "0 \<le> round_percent (int (length (filter completed (completedLevels g)))) t
      \<and> round_percent (int (length (filter completed (completedLevels g)))) t \<le> 100"
    by (intro round_percent_bounds) simp_all
  with assms(2) show ?thesis
    by (simp add: markCompletion_def calculateProgress_def Let_def)
qed

lemma recordQuizAttempt_accepts:
  fixes prog lvl
  defines "existing \<equiv> find (\<lambda>e. lp_levelId e = l_id lvl) (completedLevels prog)"
  assumes lim: "u_role usr = Admin \<or> attemptsUsedBefore existing < maxAttempts qz"
    and watched: "case existing of Some e \<Rightarrow> 0 \<le> videoWatchedPercent e \<and> videoWatchedPercent e \<le> 100
                   | None \<Rightarrow> True"
    and entries: "int (length (completedLevels prog)) + (if existing = None then 1 else 0)
                    \<le> countLevels d1 (q_courseId qz)"
  shows "\<exists>res d'. recordQuizAttempt d1 now usr qz lvl answers prog = (Inr res, d')"
proof -
  let ?idx = "findIndex (\<lambda>e. lp_levelId e = l_id lvl) (completedLevels prog)"
  let ?scr = "round_percent (correctCount (gradeQuiz qz answers)) (int (length (questions qz)))"
  let ?pss = "?scr \<ge> passingScore qz"
  let ?e = "levelProgress lvl now existing ?scr ?pss"
  let ?g1 = "prog\<lparr>completedLevels := putLevelEntry (completedLevels prog) ?idx ?e\<rparr>"
  let ?g2 = "if ?pss \<and> watchedEnough existing then unlockNext ?g1 lvl else ?g1"
  let ?g3 = "markCompletion ?g2 (countLevels d1 (q_courseId qz)) now"
  have ex: "map_option (\<lambda>i. completedLevels prog ! i) ?idx = existing"
    by (simp add: existing_def findIndex_nth)
  have cl: "completedLevels ?g2 = putLevelEntry (completedLevels prog) ?idx ?e"
    by (simp add: unlockNext_fields)
  have "length (completedLevels ?g2)
          = length (completedLevels prog) + (if existing = None then 1 else 0)"
    unfolding cl unfolding existing_def by (rule length_putLevelEntry)
  with entries have len: "int (length (completedLevels ?g2)) \<le> countLevels d1 (q_courseId qz)"
    by (simp split: if_splits)
  have "completedLevels prog \<noteq> []" if "existing \<noteq> None"
    using that by (auto simp: existing_def)
  with entries have pos: "0 < countLevels d1 (q_courseId qz)"
    by (cases "existing = None") (cases "completedLevels prog", simp_all)+
  have tp: "0 \<le> totalProgress ?g3 \<and> totalProgress ?g3 \<le> 100"
    using len pos by (rule markCompletion_totalProgress)
  have vw: "0 \<le> videoWatchedPercent ?e \<and> videoWatchedPercent ?e \<le> 100"
    using watched by (cases existing) (simp_all add: levelProgress_def Let_def js_or_zero)
  from tp vw have valid: "validProgress ?g3 ?e"
    by (simp add: validProgress_def)
  from lim have nolim: "\<not> (u_role usr \<noteq> Admin \<and> attemptsUsedBefore existing \<ge> maxAttempts qz)"
    by auto
  show ?thesis
    unfolding recordQuizAttempt_def Let_def ex using valid nolim by simp
qed

lemma submitQuiz_accepts:
  assumes guards: "quizGuards d usr qid = Inr (qz, lvl)"
    and lim: "u_role usr = Admin
               \<or> storedAttempts d (u_id usr) (q_courseId qz) (l_id lvl) < maxAttempts qz"
    and watched: "0 \<le> storedWatched d (u_id usr) (q_courseId qz) (l_id lvl)"
      "storedWatched d (u_id usr) (q_courseId qz) (l_id lvl) \<le> 100"
    and entries: "int (length (storedEntries d (u_id usr) (q_courseId qz)))
                    + (if storedEntry d (u_id usr) (q_courseId qz) (l_id lvl) = None then 1 else 0)
                  \<le> countLevels d (q_courseId qz)"
  shows "\<exists>res d'. submitQuiz d now usr qid answers = (Inr res, d')"
proof -
  let ?uid = "u_id usr" and ?cid = "q_courseId qz" and ?lid = "l_id lvl"
  obtain prog d1 where ens: "ensureProgress d now ?uid ?cid = (prog, d1)"
    by (cases "ensureProgress d now ?uid ?cid")
  note sub = submitQuiz_guarded [OF guards ens]
  note before = attemptsUsedBefore_stored [OF ens, of ?lid]
  note entry = ensureProgress_stored(2) [OF ens, of ?lid]
  have all: "completedLevels prog = storedEntries d ?uid ?cid"
    using ens by (auto simp: ensureProgress_def storedEntries_def newProgress_def split: option.splits)
  have cnt: "countLevels d1 ?cid = countLevels d ?cid"
    using ens by (auto simp: ensureProgress_def countLevels_def split: option.splits)
  have w: "case find (\<lambda>e. lp_levelId e = ?lid) (completedLevels prog) of
             Some e \<Rightarrow> 0 \<le> videoWatchedPercent e \<and> videoWatchedPercent e \<le> 100
           | None \<Rightarrow> True"
    using watched by (simp add: entry storedWatched_def split: option.splits)
  have l: "u_role usr = Admin
      \<or> attemptsUsedBefore (find (\<lambda>e. lp_levelId e = ?lid) (completedLevels prog)) < maxAttempts qz"
    using lim by (simp only: before)
  have n: "int (length (completedLevels prog))
      + (if find (\<lambda>e. lp_levelId e = ?lid) (completedLevels prog) = None then 1 else 0)
      \<le> countLevels d1 ?cid"
    using entries by (subst entry) (simp only: all cnt)
  from l w n have "\<exists>res d'. recordQuizAttempt d1 now usr qz lvl answers prog = (Inr res, d')"
    by (rule recordQuizAttempt_accepts)
  then show ?thesis by (simp add: sub)
qed

lemmas example_defs = dbQ_def progress20_def entry20_def answers3of4_def quiz40_def quiz42_def
  level1_def level3_def freeCourse_def paidCourse_def student2_def admin1_def

lemmas quiz_defs = submitQuiz_def quizGuards_def recordQuizAttempt_def findLevel_def
  ensureProgress_def findApprovedPayment_def attemptsUsedBefore_def watchedEnough_def
  levelProgress_def gradeQuiz_def gradeQuestion_def correctCount_def round_percent_values
  putLevelEntry_def unlockNext_def markCompletion_def calculateProgress_def countLevels_def
  validProgress_def saveProgress_def js_or_def Let_def

lemmas stored_defs = storedEntry_def storedAttempts_def storedWatched_def storedCurrentLevel_def


section \<open>Quiz submission: theorems\<close>

text \<open>
  What an accepted quiz submission returns and stores: it counts the questions whose
  counting answer is graded as correct, scores \<open>Math.round((correctCount /
  totalQuestions) * 100)\<close> in double arithmetic and passes iff the score reaches
  \<open>passingScore\<close>. The level is completed, and the frontier moves to
  \<open>max(currentLevel, levelNumber + 1)\<close>, only if the quiz is passed and the stored
  \<open>videoWatchedPercent\<close> of the level is at least 90 already; otherwise the level
  stays incomplete and the frontier stays where it was.
\<close>

lemma quiz_submission_outcome:
  assumes run: "submitQuiz d now usr qid answers = (Inr res, d')"
    and quiz: "quizzes d qid = Some qz"
    and lvl: "findLevel d (q_levelId qz) = Some lvl"
    and num: "1 \<le> levelNumber lvl"
  shows "correctAnswers res = int (length (filter (answeredCorrectly answers) (questions qz)))"
    and "totalQuestions res = int (length (questions qz))"
    and "score res = round_percent (correctAnswers res) (totalQuestions res)"
    and "passed res = (score res \<ge> passingScore qz)"
    and "map_option completed (storedEntry d' (u_id usr) (q_courseId qz) (l_id lvl))
        = Some (passed res \<and> storedWatched d (u_id usr) (q_courseId qz) (l_id lvl) \<ge> 90)"
    and "storedCurrentLevel d' (u_id usr) (q_courseId qz)
        = (if passed res \<and> storedWatched d (u_id usr) (q_courseId qz) (l_id lvl) \<ge> 90
           then max (storedCurrentLevel d (u_id usr) (q_courseId qz)) (levelNumber lvl + 1)
           else storedCurrentLevel d (u_id usr) (q_courseId qz))"
proof -
  from run quiz lvl obtain prog d1
    where ens: "ensureProgress d now (u_id usr) (q_courseId qz) = (prog, d1)"
      and rec: "recordQuizAttempt d1 now usr qz lvl answers prog = (Inr res, d')"
      and ne: "questions qz \<noteq> []"
    by (rule submitQuiz_Inr)
  note facts = recordQuizAttempt_Inr [OF rec]
  note we = watchedEnough_stored [OF ens, of "l_id lvl"]
  have stored: "progresses d' (u_id usr, q_courseId qz) = Some (r_progress res)"
    using facts(9) by (simp add: stored_after_save)
  show "correctAnswers res = int (length (filter (answeredCorrectly answers) (questions qz)))"
    using facts(4) by (simp add: correctCount_gradeQuiz)
  show "totalQuestions res = int (length (questions qz))"
    using facts(5) .
  show "score res = round_percent (correctAnswers res) (totalQuestions res)"
    using facts(2) by (simp only: facts(4) facts(5))
  show "passed res = (score res \<ge> passingScore qz)"
    using facts(3) .
  show "map_option completed (storedEntry d' (u_id usr) (q_courseId qz) (l_id lvl))
        = Some (passed res \<and> storedWatched d (u_id usr) (q_courseId qz) (l_id lvl) \<ge> 90)"
    using facts(7) by (simp add: storedEntry_def stored levelProgress_def Let_def we)
  have cur: "currentLevel prog = storedCurrentLevel d (u_id usr) (q_courseId qz)"
    using ensureProgress_stored(3) [OF ens] .
  show "storedCurrentLevel d' (u_id usr) (q_courseId qz)
        = (if passed res \<and> storedWatched d (u_id usr) (q_courseId qz) (l_id lvl) \<ge> 90
           then max (storedCurrentLevel d (u_id usr) (q_courseId qz)) (levelNumber lvl + 1)
           else storedCurrentLevel d (u_id usr) (q_courseId qz))"
    using facts(8) num by (simp add: storedCurrentLevel_def stored we cur max_js_or)
qed

text \<open>
  A selection that \<open>Number\<close> does not turn into an integer, and a question that no
  item names, are graded as incorrect; \<open>selectedAnswer: null\<close> and an empty string
  are graded as the option 0.
\<close>

lemma answeredCorrectly_cases:
  "lastAnswer answers (qn_id q) = None \<Longrightarrow> \<not> answeredCorrectly answers q"
  "lastAnswer answers (qn_id q) = Some a \<Longrightarrow> a_selectedAnswer a = NoSelection
     \<Longrightarrow> \<not> answeredCorrectly answers q"
  "lastAnswer answers (qn_id q) = Some a \<Longrightarrow> a_selectedAnswer a = OtherSelection
     \<Longrightarrow> \<not> answeredCorrectly answers q"
  "lastAnswer answers (qn_id q) = Some a \<Longrightarrow> a_selectedAnswer a = Selected n
     \<Longrightarrow> answeredCorrectly answers q = (0 \<le> n \<and> n = correctAnswer q)"
  "lastAnswer answers (qn_id q) = Some a \<Longrightarrow> a_selectedAnswer a = NullSelection
     \<Longrightarrow> answeredCorrectly answers q = (correctAnswer q = 0)"
  "lastAnswer answers (qn_id q) = Some a \<Longrightarrow> a_selectedAnswer a = EmptySelection
     \<Longrightarrow> answeredCorrectly answers q = (correctAnswer q = 0)"
  by (auto simp: answeredCorrectly_def)

lemmas long_defs = dbLong_def quiz41_def answers23of40_def

lemma long_quiz_graded:
  "int (length (filter (answeredCorrectly answers23of40) (questions quiz41))) = 23"
  "int (length (questions quiz41)) = 40"
  by (simp_all add: answeredCorrectly_def lastAnswer_def long_defs upt_rec)

lemma quiz41_fields:
  "q_levelId quiz41 = 20" "q_courseId quiz41 = 11" "questions quiz41 \<noteq> []"
  "passingScore quiz41 = 58" "maxAttempts quiz41 = 3" "q_status quiz41 = Active"
  by (simp_all add: quiz41_def)

lemma long_quiz_guards: "quizGuards dbLong student2 41 = Inr (quiz41, level1)"
  by (simp add: quizGuards_def findLevel_def findApprovedPayment_def dbLong_def dbQ_def
      quiz41_fields level1_def level3_def freeCourse_def student2_def)

text \<open>
  C6. The score is not \<open>round(100 * correctCount / totalQuestions)\<close> for every quiz,
  and a selection that is no answer can be graded as correct.

  Student 2 has watched level 20 to 95 percent and answers 23 of the 40 questions of
  quiz 41, which passes at 58. The rounded percentage is 58, but the handler scores 57
  (the double product \<open>(23 / 40) * 100\<close> is below 57.5), fails the attempt, leaves
  the level incomplete and the frontier at 1.

  For quiz 40 (four questions, passing at 70) the student answers two questions
  correctly, sends \<open>selectedAnswer: null\<close> for question 1, whose right option is
  the first one, and leaves question 4 out: \<open>Number(null)\<close> is 0, so the handler
  counts three correct answers, scores 75, passes the attempt, completes the level and
  moves the frontier to 2.
\<close>

theorem quiz_score_diverges:
  "(\<exists>res d'. submitQuiz dbLong 5000 student2 41 answers23of40 = (Inr res, d')
       \<and> correctAnswers res = 23 \<and> totalQuestions res = 40
       \<and> round (100 * real_of_int (correctAnswers res) / real_of_int (totalQuestions res)) = 58
       \<and> passingScore quiz41 = 58
       \<and> score res = 57 \<and> \<not> passed res
       \<and> storedWatched dbLong 2 11 20 = 95
       \<and> map_option completed (storedEntry d' 2 11 20) = Some False
       \<and> storedCurrentLevel d' 2 11 = 1)
   \<and> (\<exists>res d'. submitQuiz (dbQ 95 0) 5000 student2 40 answersNull = (Inr res, d')
       \<and> lastAnswer answersNull 1 = Some \<lparr> a_questionId = Some 1, a_selectedAnswer = NullSelection \<rparr>
       \<and> lastAnswer answersNull 4 = None
       \<and> correctAnswers res = 3 \<and> totalQuestions res = 4
       \<and> passingScore quiz40 = 70
       \<and> score res = 75 \<and> passed res
       \<and> map_option completed (storedEntry d' 2 11 20) = Some True
       \<and> storedCurrentLevel d' 2 11 = 2)"
proof -
  have ids: "u_id student2 = 2" "l_id level1 = 20" "q_courseId quiz40 = 11" "q_levelId quiz40 = 20"
    "passingScore quiz40 = 70" "maxAttempts quiz40 = 3" "u_role student2 \<noteq> Admin"
    by (simp_all add: student2_def level1_def quiz40_def)
  have num: "1 \<le> levelNumber level1"
    by (simp add: level1_def)
  have half: "round (100 * real_of_int 23 / real_of_int 40) = 58"
    by (simp add: round_def)
  have "\<exists>res d'. submitQuiz dbLong 5000 student2 41 answers23of40 = (Inr res, d')
       \<and> correctAnswers res = 23 \<and> totalQuestions res = 40
       \<and> round (100 * real_of_int (correctAnswers res) / real_of_int (totalQuestions res)) = 58
       \<and> passingScore quiz41 = 58
       \<and> score res = 57 \<and> \<not> passed res
       \<and> storedWatched dbLong 2 11 20 = 95
       \<and> map_option completed (storedEntry d' 2 11 20) = Some False
       \<and> storedCurrentLevel d' 2 11 = 1"
  proof -
    have st: "storedAttempts dbLong 2 11 20 = 0" "storedWatched dbLong 2 11 20 = 95"
      "storedEntry dbLong 2 11 20 \<noteq> None" "length (storedEntries dbLong 2 11) = 1"
      "countLevels dbLong 11 = 2" "storedCurrentLevel dbLong 2 11 = 1"
      by (simp_all add: stored_defs storedEntries_def countLevels_def dbLong_def dbQ_def
          progress20_def entry20_def level1_def level3_def)
    have quiz: "quizzes dbLong 41 = Some quiz41"
      by (simp add: dbLong_def)
    have lvl: "findLevel dbLong (q_levelId quiz41) = Some level1"
      by (simp add: findLevel_def dbLong_def dbQ_def quiz41_fields level1_def)
    obtain res d' where run: "submitQuiz dbLong 5000 student2 41 answers23of40 = (Inr res, d')"
      using submitQuiz_accepts [OF long_quiz_guards, of 5000 answers23of40]
      by (auto simp: ids quiz41_fields st)
    note out = quiz_submission_outcome [OF run quiz lvl num, unfolded ids quiz41_fields st]
    have c: "correctAnswers res = 23" and t: "totalQuestions res = 40"
      using out(1,2) by (simp_all only: long_quiz_graded)
    have sc: "score res = 57"
      using out(3) by (simp only: c t round_percent_values)
    have "\<not> passed res \<and> map_option completed (storedEntry d' 2 11 20) = Some False
        \<and> storedCurrentLevel d' 2 11 = 1"
      using out(4,5,6) by (simp add: sc)
    with run c t sc half st(2) show ?thesis
      by (simp add: quiz41_fields)
  qed
  moreover have "\<exists>res d'. submitQuiz (dbQ 95 0) 5000 student2 40 answersNull = (Inr res, d')
       \<and> lastAnswer answersNull 1 = Some \<lparr> a_questionId = Some 1, a_selectedAnswer = NullSelection \<rparr>
       \<and> lastAnswer answersNull 4 = None
       \<and> correctAnswers res = 3 \<and> totalQuestions res = 4
       \<and> passingScore quiz40 = 70
       \<and> score res = 75 \<and> passed res
       \<and> map_option completed (storedEntry d' 2 11 20) = Some True
       \<and> storedCurrentLevel d' 2 11 = 2"
  proof -
    have st: "storedAttempts (dbQ 95 0) 2 11 20 = 0" "storedWatched (dbQ 95 0) 2 11 20 = 95"
      "storedEntry (dbQ 95 0) 2 11 20 \<noteq> None" "length (storedEntries (dbQ 95 0) 2 11) = 1"
      "countLevels (dbQ 95 0) 11 = 2" "storedCurrentLevel (dbQ 95 0) 2 11 = 1"
      by (simp_all add: stored_defs storedEntries_def countLevels_def dbQ_def
          progress20_def entry20_def level1_def level3_def)
    have g: "quizGuards (dbQ 95 0) student2 40 = Inr (quiz40, level1)"
      by (simp add: quizGuards_def findLevel_def findApprovedPayment_def example_defs)
    have quiz: "quizzes (dbQ 95 0) 40 = Some quiz40"
      by (simp add: dbQ_def)
    have lvl: "findLevel (dbQ 95 0) (q_levelId quiz40) = Some level1"
      by (simp add: findLevel_def dbQ_def quiz40_def level1_def)
    have la: "lastAnswer answersNull 1 = Some \<lparr> a_questionId = Some 1, a_selectedAnswer = NullSelection \<rparr>"
      "lastAnswer answersNull 4 = None"
      by (simp_all add: lastAnswer_def answersNull_def)
    have graded: "int (length (filter (answeredCorrectly answersNull) (questions quiz40))) = 3"
      "int (length (questions quiz40)) = 4"
      by (simp_all add: answeredCorrectly_def lastAnswer_def answersNull_def quiz40_def)
    obtain res d' where run: "submitQuiz (dbQ 95 0) 5000 student2 40 answersNull = (Inr res, d')"
      using submitQuiz_accepts [OF g, of 5000 answersNull]
      by (auto simp: ids st)
    note out = quiz_submission_outcome [OF run quiz lvl num, unfolded ids st]
    have c: "correctAnswers res = 3" and t: "totalQuestions res = 4"
      using out(1,2) by (simp_all only: graded)
    have sc: "score res = 75"
      using out(3) by (simp only: c t round_percent_values)
    have "passed res \<and> map_option completed (storedEntry d' 2 11 20) = Some True
        \<and> storedCurrentLevel d' 2 11 = 2"
      using out(4,5,6) by (simp add: sc level1_def)
    with run la c t sc show ?thesis
      by (simp add: ids)
  qed
  ultimately show ?thesis by (rule conjI)
qed

text \<open>
  C7. For a request that passes the checks before the attempt limit: a non-admin learner
  whose stored \<open>quizAttempts\<close> for the level has reached \<open>maxAttempts\<close> is answered
  with the max-attempts error and the counter is not incremented (the database is left
  as it was when the learner has an entry for the level); an admin is never answered
  with that error. A submission of an admin, or
  of a learner below the limit, is accepted whenever the stored record is well formed
  (the watched percentage of the level is one, and the record, with the entry of this
  level, has entries for no more levels than the course has), and in any case it is
  either accepted or fails the validation of the save; and every accepted submission,
  passed or failed, increments the stored counter by exactly 1.
\<close>

theorem quiz_attempt_limit:
  assumes guards: "quizGuards d usr qid = Inr (qz, lvl)"
  shows "(u_role usr \<noteq> Admin
            \<and> storedAttempts d (u_id usr) (q_courseId qz) (l_id lvl) \<ge> maxAttempts qz
          \<longrightarrow> fst (submitQuiz d now usr qid answers)
                = Inl (HttpError 400 ''Maximum attempts reached for this quiz'')
              \<and> storedAttempts (snd (submitQuiz d now usr qid answers))
                    (u_id usr) (q_courseId qz) (l_id lvl)
                  = storedAttempts d (u_id usr) (q_courseId qz) (l_id lvl))
    \<and> (u_role usr \<noteq> Admin
            \<and> storedEntry d (u_id usr) (q_courseId qz) (l_id lvl) \<noteq> None
            \<and> storedAttempts d (u_id usr) (q_courseId qz) (l_id lvl) \<ge> maxAttempts qz
          \<longrightarrow> submitQuiz d now usr qid answers
                = (Inl (HttpError 400 ''Maximum attempts reached for this quiz''), d))
    \<and> (u_role usr = Admin
          \<longrightarrow> fst (submitQuiz d now usr qid answers)
                \<noteq> Inl (HttpError 400 ''Maximum attempts reached for this quiz''))
    \<and> ((u_role usr = Admin
           \<or> storedAttempts d (u_id usr) (q_courseId qz) (l_id lvl) < maxAttempts qz)
         \<and> 0 \<le> storedWatched d (u_id usr) (q_courseId qz) (l_id lvl)
         \<and> storedWatched d (u_id usr) (q_courseId qz) (l_id lvl) \<le> 100
         \<and> int (length (storedEntries d (u_id usr) (q_courseId qz)))
              + (if storedEntry d (u_id usr) (q_courseId qz) (l_id lvl) = None then 1 else 0)
             \<le> countLevels d (q_courseId qz)
          \<longrightarrow> (\<exists>res d'. submitQuiz d now usr qid answers = (Inr res, d')
                 \<and> attemptsUsed res = storedAttempts d (u_id usr) (q_courseId qz) (l_id lvl) + 1
                 \<and> storedAttempts d' (u_id usr) (q_courseId qz) (l_id lvl)
                     = storedAttempts d (u_id usr) (q_courseId qz) (l_id lvl) + 1))
    \<and> (u_role usr = Admin
          \<or> storedAttempts d (u_id usr) (q_courseId qz) (l_id lvl) < maxAttempts qz
          \<longrightarrow> (\<exists>res d'. submitQuiz d now usr qid answers = (Inr res, d'))
              \<or> fst (submitQuiz d now usr qid answers) = Inl (HttpError 500 ''Server error''))
    \<and> (\<forall>res d'. submitQuiz d now usr qid answers = (Inr res, d')
          \<longrightarrow> attemptsUsed res = storedAttempts d (u_id usr) (q_courseId qz) (l_id lvl) + 1
              \<and> storedAttempts d' (u_id usr) (q_courseId qz) (l_id lvl)
                  = storedAttempts d (u_id usr) (q_courseId qz) (l_id lvl) + 1)"
proof -
  let ?uid = "u_id usr" and ?cid = "q_courseId qz" and ?lid = "l_id lvl"
  obtain prog d1 where ens: "ensureProgress d now ?uid ?cid = (prog, d1)"
    by (cases "ensureProgress d now ?uid ?cid")
  note sub = submitQuiz_guarded [OF guards ens]
  note before = attemptsUsedBefore_stored [OF ens, of ?lid]
  note cases = recordQuizAttempt_cases [where usr = usr and lvl = lvl and prog = prog and qz = qz
      and ?d1.0 = d1 and now = now and answers = answers, unfolded before]
  have a: "submitQuiz d now usr qid answers
             = (Inl (HttpError 400 ''Maximum attempts reached for this quiz''), d)"
    if "u_role usr \<noteq> Admin" and "storedEntry d ?uid ?cid ?lid \<noteq> None"
      and "storedAttempts d ?uid ?cid ?lid \<ge> maxAttempts qz"
  proof -
    from that(2) obtain g where "progresses d (?uid, ?cid) = Some g"
      by (auto simp: storedEntry_def split: option.splits)
    with ens have "d1 = d" by (simp add: ensureProgress_def)
    with cases that(1,3) show ?thesis by (auto simp: sub)
  qed
  have a0: "fst (submitQuiz d now usr qid answers)
                = Inl (HttpError 400 ''Maximum attempts reached for this quiz'')
              \<and> storedAttempts (snd (submitQuiz d now usr qid answers)) ?uid ?cid ?lid
                  = storedAttempts d ?uid ?cid ?lid"
    if "u_role usr \<noteq> Admin" and "storedAttempts d ?uid ?cid ?lid \<ge> maxAttempts qz"
    using cases that ensureProgress_keeps_attempts [OF ens, of ?lid] by (auto simp: sub)
  have b: "fst (submitQuiz d now usr qid answers)
             \<noteq> Inl (HttpError 400 ''Maximum attempts reached for this quiz'')"
    if "u_role usr = Admin"
    using cases that by (auto simp: sub)
  have c: "(\<exists>res d'. submitQuiz d now usr qid answers = (Inr res, d'))
              \<or> fst (submitQuiz d now usr qid answers) = Inl (HttpError 500 ''Server error'')"
    if "u_role usr = Admin \<or> storedAttempts d ?uid ?cid ?lid < maxAttempts qz"
    using cases that by (auto simp: sub)
  have e: "attemptsUsed res = storedAttempts d ?uid ?cid ?lid + 1
              \<and> storedAttempts d' ?uid ?cid ?lid = storedAttempts d ?uid ?cid ?lid + 1"
    if run: "submitQuiz d now usr qid answers = (Inr res, d')" for res d'
  proof -
    from run have rec: "recordQuizAttempt d1 now usr qz lvl answers prog = (Inr res, d')"
      by (simp add: sub)
    note facts = recordQuizAttempt_Inr [OF rec]
    have stored: "progresses d' (?uid, ?cid) = Some (r_progress res)"
      using facts(9) by (simp add: stored_after_save)
    have "storedAttempts d' ?uid ?cid ?lid = storedAttempts d ?uid ?cid ?lid + 1"
      using facts(7) by (simp add: storedAttempts_def storedEntry_def stored levelProgress_def Let_def before)
    with facts(6) before show ?thesis by simp
  qed
  have f: "\<exists>res d'. submitQuiz d now usr qid answers = (Inr res, d')
                 \<and> attemptsUsed res = storedAttempts d ?uid ?cid ?lid + 1
                 \<and> storedAttempts d' ?uid ?cid ?lid = storedAttempts d ?uid ?cid ?lid + 1"
    if "u_role usr = Admin \<or> storedAttempts d ?uid ?cid ?lid < maxAttempts qz"
      and "0 \<le> storedWatched d ?uid ?cid ?lid" and "storedWatched d ?uid ?cid ?lid \<le> 100"
      and "int (length (storedEntries d ?uid ?cid))
              + (if storedEntry d ?uid ?cid ?lid = None then 1 else 0) \<le> countLevels d ?cid"
  proof -
    from submitQuiz_accepts [OF guards that]
    obtain res d' where "submitQuiz d now usr qid answers = (Inr res, d')"
      by blast
    with e show ?thesis by blast
  qed
  from a0 a b f c e show ?thesis by blast
qed

theorem quiz_attempt_limit_witness:
  "quizGuards (dbQ 95 3) student2 40 = Inr (quiz40, level1)
   \<and> u_role student2 \<noteq> Admin
   \<and> storedEntry (dbQ 95 3) 2 11 20 \<noteq> None
   \<and> storedAttempts (dbQ 95 3) 2 11 20 = 3 \<and> maxAttempts quiz40 = 3
   \<and> submitQuiz (dbQ 95 3) 5000 student2 40 answers3of4
       = (Inl (HttpError 400 ''Maximum attempts reached for this quiz''), dbQ 95 3)
   \<and> quizGuards (dbQ 95 3) admin1 40 = Inr (quiz40, level1)
   \<and> u_role admin1 = Admin
   \<and> storedAttempts (dbQ 95 3) 1 11 20 = 3
   \<and> storedWatched (dbQ 95 3) 1 11 20 = 95
   \<and> length (storedEntries (dbQ 95 3) 1 11) = 1 \<and> countLevels (dbQ 95 3) 11 = 2
   \<and> (\<exists>res d'. submitQuiz (dbQ 95 3) 5000 admin1 40 answers3of4 = (Inr res, d')
         \<and> passed res \<and> attemptsUsed res = 4 \<and> storedAttempts d' 1 11 20 = 4)
   \<and> quizGuards (dbQ 95 1) student2 40 = Inr (quiz40, level1)
   \<and> storedAttempts (dbQ 95 1) 2 11 20 = 1
   \<and> storedWatched (dbQ 95 1) 2 11 20 = 95
   \<and> length (storedEntries (dbQ 95 1) 2 11) = 1 \<and> countLevels (dbQ 95 1) 11 = 2
   \<and> (\<exists>res d'. submitQuiz (dbQ 95 1) 5000 student2 40 answers3of4 = (Inr res, d')
         \<and> passed res \<and> attemptsUsed res = 2 \<and> storedAttempts d' 2 11 20 = 2)
   \<and> (\<exists>res d'. submitQuiz (dbQ 95 1) 5000 student2 40 [] = (Inr res, d')
         \<and> \<not> passed res \<and> attemptsUsed res = 2 \<and> storedAttempts d' 2 11 20 = 2)"
proof -
  have ids: "u_id student2 = 2" "u_id admin1 = 1" "q_courseId quiz40 = 11" "l_id level1 = 20"
    "maxAttempts quiz40 = 3" "u_role student2 \<noteq> Admin" "u_role admin1 = Admin"
    "q_levelId quiz40 = 20" "passingScore quiz40 = 70"
    by (simp_all add: student2_def admin1_def quiz40_def level1_def)
  have g1: "quizGuards (dbQ 95 3) student2 40 = Inr (quiz40, level1)"
    and g2: "quizGuards (dbQ 95 3) admin1 40 = Inr (quiz40, level1)"
    and g3: "quizGuards (dbQ 95 1) student2 40 = Inr (quiz40, level1)"
    by (simp_all add: quizGuards_def findLevel_def findApprovedPayment_def example_defs)
  have st: "storedEntry (dbQ 95 3) 2 11 20 \<noteq> None" "storedAttempts (dbQ 95 3) 2 11 20 = 3"
    "storedAttempts (dbQ 95 3) 1 11 20 = 3" "storedAttempts (dbQ 95 1) 2 11 20 = 1"
    "storedEntry (dbQ 95 3) 1 11 20 \<noteq> None" "storedEntry (dbQ 95 1) 2 11 20 \<noteq> None"
    "storedWatched (dbQ 95 3) 1 11 20 = 95" "storedWatched (dbQ 95 1) 2 11 20 = 95"
    "length (storedEntries (dbQ 95 3) 1 11) = 1" "length (storedEntries (dbQ 95 1) 2 11) = 1"
    "countLevels (dbQ 95 3) 11 = 2" "countLevels (dbQ 95 1) 11 = 2"
    by (simp_all add: stored_defs storedEntries_def countLevels_def dbQ_def progress20_def
        entry20_def level1_def level3_def)
  have num: "1 \<le> levelNumber level1"
    by (simp add: level1_def)
  have graded: "int (length (filter (answeredCorrectly answers3of4) (questions quiz40))) = 3"
    "int (length (filter (answeredCorrectly []) (questions quiz40))) = 0"
    "int (length (questions quiz40)) = 4"
    by (simp_all add: answeredCorrectly_def lastAnswer_def answers3of4_def quiz40_def)
  have pass: "passed res = (70 \<le> round_percent (int (length (filter (answeredCorrectly answers)
                                                                 (questions quiz40)))) 4)"
    if "submitQuiz (dbQ 95 n) 5000 usr 40 answers = (Inr res, d')" for res d' n usr answers
  proof -
    have "quizzes (dbQ 95 n) 40 = Some quiz40"
      by (simp add: dbQ_def)
    moreover have "findLevel (dbQ 95 n) (q_levelId quiz40) = Some level1"
      by (simp add: findLevel_def dbQ_def quiz40_def level1_def)
    ultimately show ?thesis
      using quiz_submission_outcome [OF that _ _ num] by (simp add: ids graded)
  qed
  have blocked: "submitQuiz (dbQ 95 3) 5000 student2 40 answers3of4
       = (Inl (HttpError 400 ''Maximum attempts reached for this quiz''), dbQ 95 3)"
    using quiz_attempt_limit [OF g1, of 5000 answers3of4] st by (simp add: ids)
  have "\<exists>res d'. submitQuiz (dbQ 95 3) 5000 admin1 40 answers3of4 = (Inr res, d')
         \<and> attemptsUsed res = 4 \<and> storedAttempts d' 1 11 20 = 4"
    using quiz_attempt_limit [OF g2, of 5000 answers3of4] st by (simp add: ids)
  then have exempt: "\<exists>res d'. submitQuiz (dbQ 95 3) 5000 admin1 40 answers3of4 = (Inr res, d')
         \<and> passed res \<and> attemptsUsed res = 4 \<and> storedAttempts d' 1 11 20 = 4"
    using pass by (auto simp: graded round_percent_values)
  have "\<exists>res d'. submitQuiz (dbQ 95 1) 5000 student2 40 answers3of4 = (Inr res, d')
         \<and> attemptsUsed res = 2 \<and> storedAttempts d' 2 11 20 = 2"
    using quiz_attempt_limit [OF g3, of 5000 answers3of4] st by (simp add: ids)
  then have passing: "\<exists>res d'. submitQuiz (dbQ 95 1) 5000 student2 40 answers3of4 = (Inr res, d')
         \<and> passed res \<and> attemptsUsed res = 2 \<and> storedAttempts d' 2 11 20 = 2"
    using pass by (auto simp: graded round_percent_values)
  have "\<exists>res d'. submitQuiz (dbQ 95 1) 5000 student2 40 [] = (Inr res, d')
         \<and> attemptsUsed res = 2 \<and> storedAttempts d' 2 11 20 = 2"
    using quiz_attempt_limit [OF g3, of 5000 "[]"] st by (simp add: ids)
  then have failing: "\<exists>res d'. submitQuiz (dbQ 95 1) 5000 student2 40 [] = (Inr res, d')
         \<and> \<not> passed res \<and> attemptsUsed res = 2 \<and> storedAttempts d' 2 11 20 = 2"
    using pass by (auto simp: graded round_percent_values)
  from g1 g2 g3 st ids blocked exempt passing failing show ?thesis
    by (simp only: simp_thms)
qed

section \<open>Level completion and course completion: theorems\<close>
















section \<open>The sequence rule\<close>

text \<open>
  POST /progress/level-complete enforces the sequence rule: a level whose number exceeds
  the caller's frontier is answered 403 and the existing Progress record is untouched.
\<close>

lemma levelComplete_sequence_violation:
  assumes lvl: "findLevel d (lc_levelId req) = Some lvl"
    and same: "l_courseId lvl = lc_courseId req"
    and acc: "checkCourseAccess d usr (lc_courseId req) = (Some crs, True)"
    and stored: "progresses d (u_id usr, lc_courseId req) = Some g"
    and locked: "levelNumber lvl > js_or (currentLevel g) 1"
  shows "levelComplete d now usr req
           = (Inl (HttpError 403 ''Please complete previous levels first''), d)"
  using assms
  by (simp add: levelComplete_def ensureProgress_def recordLevelComplete_def)


text \<open>
  C2. POST /quizzes/:id/submit has no such check. Student 2 is at the frontier 1 of
  course 11, where level 22 has the number 3: level-complete for level 22 is refused
  with 403 and changes nothing, but the quiz of level 22 is graded and answered 200, and
  the student's Progress record gains an entry for level 22 with one attempt used.
\<close>

theorem quiz_submit_skips_sequence_check:
  "u_role student2 \<noteq> Admin
   \<and> storedCurrentLevel (dbQ 0 0) 2 11 = 1
   \<and> findLevel (dbQ 0 0) (q_levelId quiz42) = Some level3 \<and> levelNumber level3 = 3
   \<and> levelComplete (dbQ 0 0) 5000 student2 reqLevel3
       = (Inl (HttpError 403 ''Please complete previous levels first''), dbQ 0 0)
   \<and> map_sum code passed (fst (submitQuiz (dbQ 0 0) 5000 student2 42 answerQ5)) = Inr True
   \<and> storedEntry (dbQ 0 0) 2 11 22 = None
   \<and> map_option quizAttempts
        (storedEntry (snd (submitQuiz (dbQ 0 0) 5000 student2 42 answerQ5)) 2 11 22) = Some 1
   \<and> progresses (snd (submitQuiz (dbQ 0 0) 5000 student2 42 answerQ5)) (2, 11)
       \<noteq> progresses (dbQ 0 0) (2, 11)"
proof -
  have a: "u_role student2 \<noteq> Admin" "storedCurrentLevel (dbQ 0 0) 2 11 = 1"
    "findLevel (dbQ 0 0) (q_levelId quiz42) = Some level3" "levelNumber level3 = 3"
    "storedEntry (dbQ 0 0) 2 11 22 = None"
    by (simp_all add: stored_defs findLevel_def example_defs)
  have b: "levelComplete (dbQ 0 0) 5000 student2 reqLevel3
       = (Inl (HttpError 403 ''Please complete previous levels first''), dbQ 0 0)"
    by (rule levelComplete_sequence_violation [where lvl = level3 and crs = freeCourse
          and g = "progress20 0 0"])
       (simp_all add: findLevel_def checkCourseAccess_def js_or_def example_defs reqLevel3_def)
  have c: "map_sum code passed (fst (submitQuiz (dbQ 0 0) 5000 student2 42 answerQ5)) = Inr True"
    by (simp add: quiz_defs example_defs answerQ5_def)
  have d: "map_option quizAttempts
        (storedEntry (snd (submitQuiz (dbQ 0 0) 5000 student2 42 answerQ5)) 2 11 22) = Some 1"
    by (simp add: quiz_defs stored_defs example_defs answerQ5_def)
  have e: "progresses (snd (submitQuiz (dbQ 0 0) 5000 student2 42 answerQ5)) (2, 11)
       \<noteq> progresses (dbQ 0 0) (2, 11)"
    by (simp add: quiz_defs example_defs answerQ5_def)
  from a b c d e show ?thesis by simp
qed

section \<open>Stream authorization: theorems\<close>

lemmas stream_data = dbS_def level60_def level61_def level63_def level64_def paidCourse_def
  draftCourse_def payment2_def progressAt1_def student2_def student3_def admin1_def


lemma no_access_facts:
  assumes "\<not> hasAccess_spec (u_role usr) (price crs)
               (map_option p_status (payments d (u_id usr, cid)))"
  shows "u_role usr \<noteq> Admin" and "price crs \<noteq> 0"
    and "findApprovedPayment d (u_id usr) cid = None"
  using assms
  by (auto simp: hasAccess_spec_def findApprovedPayment_def split: option.splits)

lemma access_facts:
  assumes "hasAccess_spec (u_role usr) (price crs)
             (map_option p_status (payments d (u_id usr, cid)))"
  shows "u_role usr = Admin \<or> price crs = 0
         \<or> (\<exists>p. findApprovedPayment d (u_id usr) cid = Some p)"
  using assms
  by (auto simp: hasAccess_spec_def findApprovedPayment_def split: option.splits)


text \<open>
  C3. The stream handler checks in this order and stops at the first failure: (1) a
  missing level or an unset or placeholder video reference is answered 404; (2) a
  missing course, or an unpublished course for a non-admin, is answered 404 with the same
  message; (3) a caller without entitlement is answered 403; (4) a non-admin whose
  frontier is below the level's number is answered 403; otherwise the request is
  authorized, and for a non-admin the Progress record then carries
  \<open>lastAccessedAt = now\<close> before any byte is served. The first three failures leave
  the database as it was. The frontier is the stored \<open>currentLevel\<close>, a positive
  integer (1 when the record is created by this request).
\<close>

theorem stream_authorization_order:
  "(findLevel d lid = None \<or> (\<exists>lvl. findLevel d lid = Some lvl \<and> \<not> hasVideo (videoPath lvl))
      \<longrightarrow> streamAuthorize d now usr lid = (Inl (HttpError 404 ''Video not uploaded yet''), d))
   \<and> (\<forall>lvl. findLevel d lid = Some lvl \<and> hasVideo (videoPath lvl)
              \<and> courses d (l_courseId lvl) = None
      \<longrightarrow> streamAuthorize d now usr lid = (Inl (HttpError 404 ''Course not found''), d))
   \<and> (\<forall>lvl crs. findLevel d lid = Some lvl \<and> hasVideo (videoPath lvl)
              \<and> courses d (l_courseId lvl) = Some crs
      \<longrightarrow> (u_role usr \<noteq> Admin \<and> c_status crs \<noteq> Published
            \<longrightarrow> streamAuthorize d now usr lid = (Inl (HttpError 404 ''Course not found''), d))
        \<and> ((u_role usr = Admin \<or> c_status crs = Published)
             \<and> \<not> hasAccess_spec (u_role usr) (price crs)
                   (map_option p_status (payments d (u_id usr, l_courseId lvl)))
            \<longrightarrow> streamAuthorize d now usr lid
                 = (Inl (HttpError 403 ''Course locked until payment is approved''), d))
        \<and> (u_role usr \<noteq> Admin \<and> c_status crs = Published
             \<and> hasAccess_spec (u_role usr) (price crs)
                   (map_option p_status (payments d (u_id usr, l_courseId lvl)))
             \<and> 1 \<le> storedCurrentLevel d (u_id usr) (l_courseId lvl)
            \<longrightarrow> (levelNumber lvl > storedCurrentLevel d (u_id usr) (l_courseId lvl)
                  \<longrightarrow> fst (streamAuthorize d now usr lid)
                       = Inl (HttpError 403 ''You must complete previous levels first''))
                \<and> (levelNumber lvl \<le> storedCurrentLevel d (u_id usr) (l_courseId lvl)
                  \<longrightarrow> fst (streamAuthorize d now usr lid) = Inr lvl
                      \<and> map_option lastAccessedAt
                           (progresses (snd (streamAuthorize d now usr lid))
                              (u_id usr, l_courseId lvl)) = Some now))
        \<and> (u_role usr = Admin \<longrightarrow> streamAuthorize d now usr lid = (Inr lvl, d)))"
proof (intro conjI allI impI)
  assume "findLevel d lid = None \<or> (\<exists>lvl. findLevel d lid = Some lvl \<and> \<not> hasVideo (videoPath lvl))"
  then show "streamAuthorize d now usr lid = (Inl (HttpError 404 ''Video not uploaded yet''), d)"
    by (auto simp: streamAuthorize_def)
next
  fix lvl
  assume "findLevel d lid = Some lvl \<and> hasVideo (videoPath lvl) \<and> courses d (l_courseId lvl) = None"
  then show "streamAuthorize d now usr lid = (Inl (HttpError 404 ''Course not found''), d)"
    by (simp add: streamAuthorize_def)
next
  fix lvl crs
  assume found: "findLevel d lid = Some lvl \<and> hasVideo (videoPath lvl)
      \<and> courses d (l_courseId lvl) = Some crs"
  assume "u_role usr \<noteq> Admin \<and> c_status crs \<noteq> Published"
  with found show "streamAuthorize d now usr lid = (Inl (HttpError 404 ''Course not found''), d)"
    by (simp add: streamAuthorize_def)
next
  fix lvl crs
  assume found: "findLevel d lid = Some lvl \<and> hasVideo (videoPath lvl)
      \<and> courses d (l_courseId lvl) = Some crs"
  assume "(u_role usr = Admin \<or> c_status crs = Published)
             \<and> \<not> hasAccess_spec (u_role usr) (price crs)
                   (map_option p_status (payments d (u_id usr, l_courseId lvl)))"
  then have vis: "u_role usr = Admin \<or> c_status crs = Published"
    and no: "\<not> hasAccess_spec (u_role usr) (price crs)
                   (map_option p_status (payments d (u_id usr, l_courseId lvl)))"
    by simp_all
  from found vis no_access_facts [OF no]
  show "streamAuthorize d now usr lid
                 = (Inl (HttpError 403 ''Course locked until payment is approved''), d)"
    by (simp add: streamAuthorize_def Let_def)
next
  fix lvl crs
  assume found: "findLevel d lid = Some lvl \<and> hasVideo (videoPath lvl)
      \<and> courses d (l_courseId lvl) = Some crs"
  assume ok: "u_role usr \<noteq> Admin \<and> c_status crs = Published
             \<and> hasAccess_spec (u_role usr) (price crs)
                   (map_option p_status (payments d (u_id usr, l_courseId lvl)))
             \<and> 1 \<le> storedCurrentLevel d (u_id usr) (l_courseId lvl)"
  obtain prog d1 where ens: "ensureProgress d now (u_id usr) (l_courseId lvl) = (prog, d1)"
    by (cases "ensureProgress d now (u_id usr) (l_courseId lvl)")
  have cur: "js_or (currentLevel prog) 1 = storedCurrentLevel d (u_id usr) (l_courseId lvl)"
    using ok ensureProgress_stored(3) [OF ens] by (simp add: js_or_def)
  have run: "streamAuthorize d now usr lid =
      (if levelNumber lvl > storedCurrentLevel d (u_id usr) (l_courseId lvl)
       then (Inl (HttpError 403 ''You must complete previous levels first''), d1)
       else (Inr lvl, saveProgress d1 (u_id usr) (l_courseId lvl) (prog\<lparr>lastAccessedAt := now\<rparr>)))"
    using found ok access_facts [of usr crs d "l_courseId lvl"]
    by (auto simp: streamAuthorize_def Let_def ens cur)
  {
    assume "levelNumber lvl > storedCurrentLevel d (u_id usr) (l_courseId lvl)"
    then show "fst (streamAuthorize d now usr lid)
                       = Inl (HttpError 403 ''You must complete previous levels first'')"
      by (simp add: run)
  next
    assume le: "levelNumber lvl \<le> storedCurrentLevel d (u_id usr) (l_courseId lvl)"
    then show "fst (streamAuthorize d now usr lid) = Inr lvl"
      by (simp add: run)
    from le show "map_option lastAccessedAt
                           (progresses (snd (streamAuthorize d now usr lid))
                              (u_id usr, l_courseId lvl)) = Some now"
      by (simp add: run stored_after_save)
  }
next
  fix lvl crs
  assume found: "findLevel d lid = Some lvl \<and> hasVideo (videoPath lvl)
      \<and> courses d (l_courseId lvl) = Some crs"
  assume "u_role usr = Admin"
  with found show "streamAuthorize d now usr lid = (Inr lvl, d)"
    by (simp add: streamAuthorize_def Let_def)
qed


theorem stream_authorization_order_witness:
  "findLevel dbS 63 = Some level63 \<and> \<not> hasVideo (videoPath level63)
   \<and> courses dbS (l_courseId level63) = Some draftCourse \<and> c_status draftCourse \<noteq> Published
   \<and> streamAuthorize dbS 2000 student3 63 = (Inl (HttpError 404 ''Video not uploaded yet''), dbS)
   \<and> findLevel dbS 64 = Some level64 \<and> hasVideo (videoPath level64)
   \<and> courses dbS (l_courseId level64) = Some draftCourse \<and> u_role student3 \<noteq> Admin
   \<and> \<not> hasAccess_spec (u_role student3) (price draftCourse)
          (map_option p_status (payments dbS (u_id student3, l_courseId level64)))
   \<and> streamAuthorize dbS 2000 student3 64 = (Inl (HttpError 404 ''Course not found''), dbS)
   \<and> findLevel dbS 61 = Some level61 \<and> hasVideo (videoPath level61)
   \<and> courses dbS (l_courseId level61) = Some paidCourse \<and> c_status paidCourse = Published
   \<and> \<not> hasAccess_spec (u_role student3) (price paidCourse)
          (map_option p_status (payments dbS (u_id student3, l_courseId level61)))
   \<and> levelNumber level61 > storedCurrentLevel dbS (u_id student3) (l_courseId level61)
   \<and> streamAuthorize dbS 2000 student3 61
       = (Inl (HttpError 403 ''Course locked until payment is approved''), dbS)
   \<and> hasAccess_spec (u_role student2) (price paidCourse)
          (map_option p_status (payments dbS (u_id student2, l_courseId level61)))
   \<and> storedCurrentLevel dbS (u_id student2) (l_courseId level61) = 1 \<and> levelNumber level61 = 2
   \<and> fst (streamAuthorize dbS 2000 student2 61)
       = Inl (HttpError 403 ''You must complete previous levels first'')
   \<and> findLevel dbS 60 = Some level60 \<and> hasVideo (videoPath level60) \<and> levelNumber level60 = 1
   \<and> fst (streamAuthorize dbS 2000 student2 60) = Inr level60
   \<and> map_option lastAccessedAt (progresses dbS (2, 10)) = Some 1000
   \<and> map_option lastAccessedAt
        (progresses (snd (streamAuthorize dbS 2000 student2 60)) (2, 10)) = Some 2000"
proof -
  have l63: "findLevel dbS 63 = Some level63" "\<not> hasVideo (videoPath level63)"
    "courses dbS (l_courseId level63) = Some draftCourse" "c_status draftCourse \<noteq> Published"
    by (simp_all add: findLevel_def hasVideo_def stream_data)
  have l64: "findLevel dbS 64 = Some level64" "hasVideo (videoPath level64)"
    "courses dbS (l_courseId level64) = Some draftCourse" "u_role student3 \<noteq> Admin"
    "\<not> hasAccess_spec (u_role student3) (price draftCourse)
          (map_option p_status (payments dbS (u_id student3, l_courseId level64)))"
    by (simp_all add: findLevel_def hasVideo_def hasAccess_spec_def stream_data)
  have l61: "findLevel dbS 61 = Some level61" "hasVideo (videoPath level61)"
    "courses dbS (l_courseId level61) = Some paidCourse" "c_status paidCourse = Published"
    "\<not> hasAccess_spec (u_role student3) (price paidCourse)
          (map_option p_status (payments dbS (u_id student3, l_courseId level61)))"
    "levelNumber level61 > storedCurrentLevel dbS (u_id student3) (l_courseId level61)"
    "hasAccess_spec (u_role student2) (price paidCourse)
          (map_option p_status (payments dbS (u_id student2, l_courseId level61)))"
    "storedCurrentLevel dbS (u_id student2) (l_courseId level61) = 1" "levelNumber level61 = 2"
    "u_role student2 \<noteq> Admin"
    by (simp_all add: findLevel_def hasVideo_def hasAccess_spec_def storedCurrentLevel_def stream_data)
  have l60: "findLevel dbS 60 = Some level60" "hasVideo (videoPath level60)"
    "levelNumber level60 = 1" "courses dbS (l_courseId level60) = Some paidCourse"
    "hasAccess_spec (u_role student2) (price paidCourse)
          (map_option p_status (payments dbS (u_id student2, l_courseId level60)))"
    "storedCurrentLevel dbS (u_id student2) (l_courseId level60) = 1"
    "map_option lastAccessedAt (progresses dbS (2, 10)) = Some 1000"
    "u_id student2 = 2" "l_courseId level60 = 10"
    by (simp_all add: findLevel_def hasVideo_def hasAccess_spec_def storedCurrentLevel_def stream_data)
  have s1: "streamAuthorize dbS 2000 student3 63 = (Inl (HttpError 404 ''Video not uploaded yet''), dbS)"
    using stream_authorization_order [of dbS 63 2000 student3] l63 by blast
  have s2: "streamAuthorize dbS 2000 student3 64 = (Inl (HttpError 404 ''Course not found''), dbS)"
    using stream_authorization_order [of dbS 64 2000 student3] l64 l63(4) by blast
  have s3: "streamAuthorize dbS 2000 student3 61
       = (Inl (HttpError 403 ''Course locked until payment is approved''), dbS)"
    using stream_authorization_order [of dbS 61 2000 student3] l61 by blast
  have s4: "fst (streamAuthorize dbS 2000 student2 61)
       = Inl (HttpError 403 ''You must complete previous levels first'')"
    using stream_authorization_order [of dbS 61 2000 student2] l61 by simp
  have s5: "fst (streamAuthorize dbS 2000 student2 60) = Inr level60
     \<and> map_option lastAccessedAt
        (progresses (snd (streamAuthorize dbS 2000 student2 60)) (2, 10)) = Some 2000"
    using stream_authorization_order [of dbS 60 2000 student2] l60 l61(4,10) by simp
  from l63 l64 l61 l60 s1 s2 s3 s4 s5 show ?thesis by simp
qed

section \<open>Range requests: theorems\<close>

text \<open>
  A range header \<open>bytes=a-b\<close> of two decimal numbers is split and parsed into these
  numbers; when \<open>a \<le> b\<close> lie inside the file the answer is 206 with
  \<open>Content-Range: bytes a-b/size\<close>, \<open>Accept-Ranges: bytes\<close>,
  \<open>Content-Length: b - a + 1\<close> and exactly the bytes \<open>a..b\<close>; an omitted \<open>b\<close>
  stands for \<open>size - 1\<close>; a start at or beyond the size, or one that is not a number,
  is answered 416 with \<open>Content-Range: bytes */size\<close> and no body.
\<close>

lemma splitOn_no_sep: "sep \<notin> set s \<Longrightarrow> splitOn sep s = [s]"
  by (induction s) auto

lemma splitOn_two:
  "sep \<notin> set a \<Longrightarrow> sep \<notin> set b \<Longrightarrow> splitOn sep (a @ sep # b) = [a, b]"
  by (induction a) (auto simp: splitOn_no_sep)

lemma removeFirst_prefix: "pat \<noteq> [] \<Longrightarrow> removeFirst pat (pat @ rest) = rest"
  by (cases pat) auto

lemma dash_not_digit: "\<not> isDigit CHR ''-''"
  by (simp add: isDigit_def)

lemma digits_no_dash:
  assumes "list_all isDigit ds"
  shows "CHR ''-'' \<notin> set ds"
proof
  assume "CHR ''-'' \<in> set ds"
  with assms have "isDigit CHR ''-''"
    unfolding list_all_iff by (rule bspec)
  with dash_not_digit show False by (rule notE)
qed

lemma range_parts:
  assumes "list_all isDigit a" and "list_all isDigit b"
  shows "splitOn CHR ''-'' (removeFirst ''bytes='' (''bytes='' @ a @ ''-'' @ b)) = [a, b]"
proof -
  have ne: "''bytes='' \<noteq> []"
    by simp
  have rm: "removeFirst ''bytes='' (''bytes='' @ a @ ''-'' @ b) = a @ ''-'' @ b"
    using ne by (rule removeFirst_prefix)
  have "splitOn CHR ''-'' (a @ CHR ''-'' # b) = [a, b]"
    using assms by (intro splitOn_two digits_no_dash)
  then have "splitOn CHR ''-'' (a @ ''-'' @ b) = [a, b]"
    by simp
  then show ?thesis
    by (simp only: rm)
qed

lemma parseInt10_digits:
  assumes "ds \<noteq> []" and "list_all isDigit ds"
  shows "parseInt10 ds = Some (digitsValue ds)"
proof -
  from assms obtain c cs where ds: "ds = c # cs" and c: "isDigit c"
    by (cases ds) auto
  from c have nw: "\<not> isWhite c" and ns: "c \<noteq> CHR ''-''" "c \<noteq> CHR ''+''"
    by (auto simp: isDigit_def isWhite_def)
  have "\<forall>x\<in>set (c # cs). isDigit x"
    using assms(2) unfolding ds by (simp add: list_all_iff)
  then have tw: "takeWhile isDigit (c # cs) = c # cs"
    by (simp only: takeWhile_eq_all_conv)
  have dw: "dropWhile isWhite (c # cs) = c # cs"
    using nw by simp
  show ?thesis
    unfolding parseInt10_def ds dw Let_def list.case
    using ns by (simp only: tw if_False list.distinct simp_thms)
qed


lemma serveLocal_wellformed:
  assumes "a \<noteq> []" and "list_all isDigit a" and "b \<noteq> []" and "list_all isDigit b"
  shows "serveLocal content ct (Some (''bytes='' @ a @ ''-'' @ b))
           = serveRange content ct (Some (digitsValue a)) (Some (digitsValue b))"
proof -
  have ne: "''bytes='' @ a @ ''-'' @ b \<noteq> []" by simp
  show ?thesis
    unfolding serveLocal_def Let_def option.case range_parts [OF assms(2,4)] list.case
    using assms ne by (simp only: parseInt10_digits if_False if_True not_False_eq_True)
qed

lemma serveLocal_open_ended:
  assumes "a \<noteq> []" and "list_all isDigit a"
  shows "serveLocal content ct (Some (''bytes='' @ a @ ''-'' @ []))
           = serveRange content ct (Some (digitsValue a)) (Some (int (length content) - 1))"
proof -
  have ne: "''bytes='' @ a @ ''-'' @ [] \<noteq> []" by simp
  have nil: "list_all isDigit []" by simp
  show ?thesis
    unfolding serveLocal_def Let_def option.case range_parts [OF assms(2) nil] list.case
    using assms ne by (simp only: parseInt10_digits if_False if_True simp_thms)
qed

lemmas range_defs = serveLocal_def serveRange_def createReadStream_def parseInt10_def
  digitsValue_def digitVal_def isDigit_def isWhite_def fullResponse_def MAX_SAFE_INTEGER_def
  Let_def

lemma serveRange_unsatisfiable:
  assumes "start = None \<or> (\<exists>st. start = Some st \<and> st \<ge> int (length content))"
  shows "serveRange content ct start end_opt
           = Inr \<lparr> rs_status = 416,
                   rs_headers = [ContentRangeUnsatisfied (int (length content))],
                   rs_body = [] \<rparr>"
  using assms by (auto simp: serveRange_def Let_def)

lemma serveRange_satisfiable:
  assumes "0 \<le> st" and "st \<le> e" and "e < int (length content)"
    and "int (length content) \<le> MAX_SAFE_INTEGER"
  shows "\<exists>body. serveRange content ct (Some st) (Some e)
           = Inr \<lparr> rs_status = 206,
                   rs_headers = [ContentRange st (Some e) (int (length content)),
                                 AcceptRanges ''bytes'', ContentLength (Some (e - st + 1)),
                                 ContentType ct],
                   rs_body = body \<rparr>
         \<and> int (length body) = e - st + 1
         \<and> (\<forall>i < length body. body ! i = content ! (nat st + i))"
  using assms by (auto simp: serveRange_def createReadStream_def Let_def)

lemma digitVal_nonneg: "isDigit c \<Longrightarrow> 0 \<le> digitVal c"
  by (auto simp: isDigit_def digitVal_def)

lemma foldl_digits_nonneg:
  "list_all isDigit ds \<Longrightarrow> 0 \<le> acc \<Longrightarrow> 0 \<le> foldl (\<lambda>acc c. 10 * acc + digitVal c) acc ds"
  by (induction ds arbitrary: acc) (auto simp: digitVal_nonneg)

lemma digitsValue_nonneg: "list_all isDigit ds \<Longrightarrow> 0 \<le> digitsValue ds"
  by (simp add: digitsValue_def foldl_digits_nonneg)

lemma range_request_in_bounds:
  assumes "a \<noteq> []" and "list_all isDigit a" and "b \<noteq> []" and "list_all isDigit b"
    and "digitsValue a \<le> digitsValue b" and "digitsValue b < int (length content)"
    and "int (length content) \<le> MAX_SAFE_INTEGER"
  shows "\<exists>body. serveLocal content ct (Some (''bytes='' @ a @ ''-'' @ b))
           = Inr \<lparr> rs_status = 206,
                   rs_headers = [ContentRange (digitsValue a) (Some (digitsValue b))
                                   (int (length content)),
                                 AcceptRanges ''bytes'',
                                 ContentLength (Some (digitsValue b - digitsValue a + 1)),
                                 ContentType ct],
                   rs_body = body \<rparr>
         \<and> int (length body) = digitsValue b - digitsValue a + 1
         \<and> (\<forall>i < length body. body ! i = content ! (nat (digitsValue a) + i))"
  unfolding serveLocal_wellformed [OF assms(1-4)]
  using assms(5,6,7) digitsValue_nonneg [OF assms(2)] by (intro serveRange_satisfiable)

lemma range_request_open_ended:
  assumes "a \<noteq> []" and "list_all isDigit a" and "digitsValue a < int (length content)"
    and "int (length content) \<le> MAX_SAFE_INTEGER"
  shows "\<exists>body. serveLocal content ct (Some (''bytes='' @ a @ ''-'' @ []))
           = Inr \<lparr> rs_status = 206,
                   rs_headers = [ContentRange (digitsValue a) (Some (int (length content) - 1))
                                   (int (length content)),
                                 AcceptRanges ''bytes'',
                                 ContentLength (Some (int (length content) - 1 - digitsValue a + 1)),
                                 ContentType ct],
                   rs_body = body \<rparr>
         \<and> int (length body) = int (length content) - 1 - digitsValue a + 1
         \<and> (\<forall>i < length body. body ! i = content ! (nat (digitsValue a) + i))"
  unfolding serveLocal_open_ended [OF assms(1,2)]
  using assms(3,4) digitsValue_nonneg [OF assms(2)] by (intro serveRange_satisfiable) simp_all

lemma range_request_unsatisfiable:
  assumes "a \<noteq> []" and "list_all isDigit a" and "list_all isDigit b"
    and "digitsValue a \<ge> int (length content)"
  shows "serveLocal content ct (Some (''bytes='' @ a @ ''-'' @ b))
           = Inr \<lparr> rs_status = 416,
                   rs_headers = [ContentRangeUnsatisfied (int (length content))],
                   rs_body = [] \<rparr>"
proof -
  have ne: "''bytes='' @ a @ ''-'' @ b \<noteq> []" by simp
  have "serveLocal content ct (Some (''bytes='' @ a @ ''-'' @ b))
          = serveRange content ct (Some (digitsValue a))
              (if b \<noteq> [] then parseInt10 b else Some (int (length content) - 1))"
    unfolding serveLocal_def Let_def option.case range_parts [OF assms(2,3)] list.case
    using assms(1,2) ne by (simp only: parseInt10_digits if_False not_False_eq_True)
  then show ?thesis
    using assms(4) by (simp add: serveRange_unsatisfiable)
qed


lemma range_beyond_file: "serveLocal ''0123456789'' ''video/mp4'' (Some ''bytes=2-19'')
     = Inr \<lparr> rs_status = 206,
             rs_headers = [ContentRange 2 (Some 19) 10, AcceptRanges ''bytes'',
                           ContentLength (Some 18), ContentType ''video/mp4''],
             rs_body = ''23456789'' \<rparr>"
  by (simp add: range_defs)


lemma range_backwards: "serveLocal ''0123456789'' ''video/mp4'' (Some ''bytes=5-2'')
     = Inl (HttpError 500 ''Server error'')"
  by (simp add: range_defs)


lemma streamed_length: "int (length ''23456789'') = 8"
  by simp

text \<open>An end above \<open>Number.MAX_SAFE_INTEGER\<close> makes the constructor throw as well.\<close>

lemma range_end_above_safe_integer:
  "serveLocal ''0123456789'' ''video/mp4'' (Some ''bytes=0-9007199254740992'')
     = Inl (HttpError 500 ''Server error'')"
  by (simp add: range_defs)


text \<open>
  C4. The handler validates \<open>start\<close> only. For a file of 10 bytes, \<open>bytes=2-19\<close>
  is answered 206 with \<open>Content-Range: bytes 2-19/10\<close> and \<open>Content-Length: 18\<close>,
  while the read stream ends with the file and delivers 8 bytes; \<open>bytes=5-2\<close> makes
  the read stream's constructor throw and is answered 500, neither 416 nor 206.
\<close>

theorem range_end_is_not_validated:
  "serveLocal ''0123456789'' ''video/mp4'' (Some ''bytes=2-19'')
     = Inr \<lparr> rs_status = 206,
             rs_headers = [ContentRange 2 (Some 19) 10, AcceptRanges ''bytes'',
                           ContentLength (Some 18), ContentType ''video/mp4''],
             rs_body = ''23456789'' \<rparr>
   \<and> int (length ''23456789'') = 8
   \<and> serveLocal ''0123456789'' ''video/mp4'' (Some ''bytes=5-2'')
     = Inl (HttpError 500 ''Server error'')"
  using range_beyond_file streamed_length range_backwards by (simp only: simp_thms)

section \<open>Payment submission: theorems\<close>

text \<open>
  What the handler does with a request that passes its validation: a proof file, a valid
  course id, a transaction id that is not blank, a course the caller may see and that is
  not free, a positive amount (the course price when the field is absent), and an upload
  that was stored.
\<close>

lemma submitPayment_valid:
  assumes upl: "rq_file req = Some f"
    and cid: "rq_courseId req = CourseId cid"
    and txn: "rq_transactionId req = Some t" "trim t \<noteq> []"
    and crs: "courses d cid = Some crs" "u_role usr = Admin \<or> c_status crs = Published"
      "price crs \<noteq> 0"
    and amt: "rq_amount req = Amount amt \<or> (rq_amount req = AmountAbsent \<and> amt = price crs)"
      "0 < amt"
    and stored: "persist (''/uploads/payment-proofs/'' @ f) = Some img" "img \<noteq> []"
  shows "submitPayment persist d usr req =
     (case payments d (u_id usr, cid) of
        Some p \<Rightarrow>
          if p_status p = Approved \<or> p_status p = Pending
          then (Inl (HttpError 400 ''You have already submitted a payment for this course''), d)
          else
            (Inr \<lparr> rp_code = 200,
                    rp_payment = p\<lparr> transactionId := trim t, amount := amt, proofImage := img,
                             p_status := Pending, rejectionReason := [], p_notes := [],
                             verifiedBy := None, verifiedAt := None \<rparr>,
                    rp_message = Some ''Payment proof resubmitted successfully'' \<rparr>,
             d\<lparr>payments := (payments d)((u_id usr, cid) \<mapsto>
                   p\<lparr> transactionId := trim t, amount := amt, proofImage := img,
                      p_status := Pending, rejectionReason := [], p_notes := [],
                      verifiedBy := None, verifiedAt := None \<rparr>)\<rparr>)
      | None \<Rightarrow>
          (Inr \<lparr> rp_code = 201,
                  rp_payment = \<lparr> p_id = nextId d, transactionId = trim t, proofImage = img,
                            amount = amt, p_status = Pending, verifiedBy = None,
                            verifiedAt = None, rejectionReason = [], p_notes = [] \<rparr>,
                  rp_message = None \<rparr>,
           d\<lparr>payments := (payments d)((u_id usr, cid) \<mapsto>
                 \<lparr> p_id = nextId d, transactionId = trim t, proofImage = img,
                   amount = amt, p_status = Pending, verifiedBy = None,
                   verifiedAt = None, rejectionReason = [], p_notes = [] \<rparr>),
             nextId := Suc (nextId d)\<rparr>))"
proof -
  have amount: "(case rq_amount req of AmountAbsent \<Rightarrow> Some (price crs)
                 | AmountNotFinite \<Rightarrow> None | Amount a \<Rightarrow> Some a) = Some amt"
    using amt(1) by auto
  have vis: "\<not> (u_role usr \<noteq> Admin \<and> c_status crs \<noteq> Published)"
    using crs(2) by auto
  show ?thesis
    unfolding submitPayment_def upl cid txn(1) option.case course_ref.case Let_def crs(1) amount
    using txn(2) vis crs(3) amt(2) stored
    by (cases "payments d (u_id usr, cid)") auto
qed



text \<open>
  C5. For such a request, when the pair's payment is rejected the same record (same id)
  is updated in place: the transaction id, the amount and the proof image are replaced,
  the status is pending again, and the rejection reason, the verifier and the
  verification time are cleared; no other payment changes, no id is consumed, and the
  answer is 200 with the resubmitted message. When the pair has no payment, a new record
  with a fresh id and status pending is created and the answer is 201.
\<close>

theorem payment_resubmission_reuses_record:
  assumes upl: "rq_file req = Some f"
    and cid: "rq_courseId req = CourseId cid"
    and txn: "rq_transactionId req = Some t" "trim t \<noteq> []"
    and crs: "courses d cid = Some crs" "u_role usr = Admin \<or> c_status crs = Published"
      "price crs \<noteq> 0"
    and amt: "rq_amount req = Amount amt \<or> (rq_amount req = AmountAbsent \<and> amt = price crs)"
      "0 < amt"
    and stored: "persist (''/uploads/payment-proofs/'' @ f) = Some img" "img \<noteq> []"
  shows "(\<forall>old. payments d (u_id usr, cid) = Some old \<and> p_status old = Rejected
           \<longrightarrow> (\<exists>reply d'. submitPayment persist d usr req = (Inr reply, d')
                 \<and> rp_code reply = 200
                 \<and> rp_message reply = Some ''Payment proof resubmitted successfully''
                 \<and> payments d' (u_id usr, cid) = Some (rp_payment reply)
                 \<and> p_id (rp_payment reply) = p_id old
                 \<and> transactionId (rp_payment reply) = trim t
                 \<and> amount (rp_payment reply) = amt
                 \<and> proofImage (rp_payment reply) = img
                 \<and> p_status (rp_payment reply) = Pending
                 \<and> rejectionReason (rp_payment reply) = []
                 \<and> verifiedBy (rp_payment reply) = None
                 \<and> verifiedAt (rp_payment reply) = None
                 \<and> (\<forall>k. k \<noteq> (u_id usr, cid) \<longrightarrow> payments d' k = payments d k)
                 \<and> nextId d' = nextId d))
       \<and> (payments d (u_id usr, cid) = None
           \<longrightarrow> (\<exists>reply d'. submitPayment persist d usr req = (Inr reply, d')
                 \<and> rp_code reply = 201
                 \<and> rp_message reply = None
                 \<and> payments d' (u_id usr, cid) = Some (rp_payment reply)
                 \<and> p_id (rp_payment reply) = nextId d
                 \<and> nextId d' = Suc (nextId d)
                 \<and> transactionId (rp_payment reply) = trim t
                 \<and> amount (rp_payment reply) = amt
                 \<and> proofImage (rp_payment reply) = img
                 \<and> p_status (rp_payment reply) = Pending
                 \<and> verifiedBy (rp_payment reply) = None
                 \<and> verifiedAt (rp_payment reply) = None))"
proof (intro conjI allI impI)
  fix old
  assume "payments d (u_id usr, cid) = Some old \<and> p_status old = Rejected"
  then show "\<exists>reply d'. submitPayment persist d usr req = (Inr reply, d')
                 \<and> rp_code reply = 200
                 \<and> rp_message reply = Some ''Payment proof resubmitted successfully''
                 \<and> payments d' (u_id usr, cid) = Some (rp_payment reply)
                 \<and> p_id (rp_payment reply) = p_id old
                 \<and> transactionId (rp_payment reply) = trim t
                 \<and> amount (rp_payment reply) = amt
                 \<and> proofImage (rp_payment reply) = img
                 \<and> p_status (rp_payment reply) = Pending
                 \<and> rejectionReason (rp_payment reply) = []
                 \<and> verifiedBy (rp_payment reply) = None
                 \<and> verifiedAt (rp_payment reply) = None
                 \<and> (\<forall>k. k \<noteq> (u_id usr, cid) \<longrightarrow> payments d' k = payments d k)
                 \<and> nextId d' = nextId d"
    unfolding submitPayment_valid [where persist = persist, OF assms] by simp
next
  assume "payments d (u_id usr, cid) = None"
  then show "\<exists>reply d'. submitPayment persist d usr req = (Inr reply, d')
                 \<and> rp_code reply = 201
                 \<and> rp_message reply = None
                 \<and> payments d' (u_id usr, cid) = Some (rp_payment reply)
                 \<and> p_id (rp_payment reply) = nextId d
                 \<and> nextId d' = Suc (nextId d)
                 \<and> transactionId (rp_payment reply) = trim t
                 \<and> amount (rp_payment reply) = amt
                 \<and> proofImage (rp_payment reply) = img
                 \<and> p_status (rp_payment reply) = Pending
                 \<and> verifiedBy (rp_payment reply) = None
                 \<and> verifiedAt (rp_payment reply) = None"
    unfolding submitPayment_valid [where persist = persist, OF assms] by simp
qed


lemma trim_example: "trim (utf16 '' TXN-2 '') = utf16 ''TXN-2''"
  by (simp add: trim_def isWhiteSpace_def utf16_def)

text \<open>A transaction id of white space only, also beyond ASCII, is answered 400.\<close>

lemma blank_transactionId_rejected:
  "trim [0xA0, 0x2003] = []"
  "submitPayment keepLocal dbRejected student3 reqBlank
     = (Inl (HttpError 400 ''Transaction ID is required''), dbRejected)"
  by (simp_all add: submitPayment_def reqBlank_def reqPay_def trim_def isWhiteSpace_def)

theorem payment_resubmission_reuses_record_witness:
  "rq_file reqPay = Some ''new.png'' \<and> rq_courseId reqPay = CourseId 10
   \<and> rq_transactionId reqPay = Some (utf16 '' TXN-2 '')
   \<and> trim (utf16 '' TXN-2 '') = utf16 ''TXN-2''
   \<and> courses dbRejected 10 = Some paidCourse \<and> c_status paidCourse = Published
   \<and> price paidCourse = 500 \<and> rq_amount reqPay = Amount 450
   \<and> keepLocal (''/uploads/payment-proofs/'' @ ''new.png'') = Some ''/uploads/payment-proofs/new.png''
   \<and> payments dbRejected (3, 10) = Some (payment2 Rejected)
   \<and> p_id (payment2 Rejected) = 70 \<and> rejectionReason (payment2 Rejected) = ''unreadable''
   \<and> verifiedBy (payment2 Rejected) = Some 1
   \<and> (\<exists>reply d'. submitPayment keepLocal dbRejected student3 reqPay = (Inr reply, d')
         \<and> rp_code reply = 200
         \<and> rp_message reply = Some ''Payment proof resubmitted successfully''
         \<and> payments d' (3, 10) = Some (rp_payment reply)
         \<and> p_id (rp_payment reply) = 70
         \<and> transactionId (rp_payment reply) = utf16 ''TXN-2''
         \<and> amount (rp_payment reply) = 450
         \<and> proofImage (rp_payment reply) = ''/uploads/payment-proofs/new.png''
         \<and> p_status (rp_payment reply) = Pending
         \<and> rejectionReason (rp_payment reply) = []
         \<and> verifiedBy (rp_payment reply) = None
         \<and> verifiedAt (rp_payment reply) = None
         \<and> nextId d' = nextId dbRejected)
   \<and> payments db0 (3, 10) = None \<and> courses db0 10 = Some paidCourse \<and> nextId db0 = 100
   \<and> (\<exists>reply d'. submitPayment keepLocal db0 student3 reqPay = (Inr reply, d')
         \<and> rp_code reply = 201 \<and> rp_message reply = None
         \<and> payments d' (3, 10) = Some (rp_payment reply)
         \<and> p_id (rp_payment reply) = 100
         \<and> p_status (rp_payment reply) = Pending)"
proof -
  have rq: "rq_file reqPay = Some ''new.png''" "rq_courseId reqPay = CourseId 10"
    "rq_transactionId reqPay = Some (utf16 '' TXN-2 '')" "rq_amount reqPay = Amount 450"
    by (simp_all add: reqPay_def)
  have tr: "trim (utf16 '' TXN-2 '') \<noteq> []"
    unfolding trim_example by (simp add: utf16_def)
  have c1: "courses dbRejected 10 = Some paidCourse" "courses db0 10 = Some paidCourse"
    by (simp_all add: dbRejected_def dbS_def db0_def)
  have c2: "u_role student3 = Admin \<or> c_status paidCourse = Published" "price paidCourse \<noteq> 0"
    "c_status paidCourse = Published" "price paidCourse = 500"
    by (simp_all add: paidCourse_def)
  have am: "rq_amount reqPay = Amount 450 \<or> (rq_amount reqPay = AmountAbsent \<and> 450 = price paidCourse)"
    "(0::int) < 450"
    by (simp_all add: rq)
  have st: "keepLocal (''/uploads/payment-proofs/'' @ ''new.png'') = Some ''/uploads/payment-proofs/new.png''"
    "''/uploads/payment-proofs/new.png'' \<noteq> []"
    by (simp_all add: keepLocal_def)
  have old: "payments dbRejected (3, 10) = Some (payment2 Rejected)"
    "p_id (payment2 Rejected) = 70" "rejectionReason (payment2 Rejected) = ''unreadable''"
    "verifiedBy (payment2 Rejected) = Some 1" "p_status (payment2 Rejected) = Rejected"
    "payments db0 (3, 10) = None" "nextId db0 = 100" "u_id student3 = 3"
    by (simp_all add: dbRejected_def payment2_def db0_def student3_def)
  note resub = payment_resubmission_reuses_record
    [where persist = keepLocal, OF rq(1,2,3) tr c1(1) c2(1,2) am st, THEN conjunct1, rule_format, of "payment2 Rejected"]
  note fresh = payment_resubmission_reuses_record
    [where persist = keepLocal, OF rq(1,2,3) tr c1(2) c2(1,2) am st, THEN conjunct2, rule_format]
  have a: "\<exists>reply d'. submitPayment keepLocal dbRejected student3 reqPay = (Inr reply, d')
         \<and> rp_code reply = 200
         \<and> rp_message reply = Some ''Payment proof resubmitted successfully''
         \<and> payments d' (3, 10) = Some (rp_payment reply)
         \<and> p_id (rp_payment reply) = 70
         \<and> transactionId (rp_payment reply) = utf16 ''TXN-2''
         \<and> amount (rp_payment reply) = 450
         \<and> proofImage (rp_payment reply) = ''/uploads/payment-proofs/new.png''
         \<and> p_status (rp_payment reply) = Pending
         \<and> rejectionReason (rp_payment reply) = []
         \<and> verifiedBy (rp_payment reply) = None
         \<and> verifiedAt (rp_payment reply) = None
         \<and> nextId d' = nextId dbRejected"
    using resub old(1,5) unfolding old(8) old(2) trim_example by blast
  have b: "\<exists>reply d'. submitPayment keepLocal db0 student3 reqPay = (Inr reply, d')
         \<and> rp_code reply = 201 \<and> rp_message reply = None
         \<and> payments d' (3, 10) = Some (rp_payment reply)
         \<and> p_id (rp_payment reply) = 100
         \<and> p_status (rp_payment reply) = Pending"
    using fresh old(6) unfolding old(8) old(7) by blast
  from rq trim_example c1 c2 st old a b show ?thesis by (simp only: simp_thms)
qed

section \<open>Level metadata: theorems\<close>

text \<open>
  For a caller who is not an admin the level object is built without the key
  \<open>videoPath\<close>, and what is built does not depend on the stored reference; lists that
  are related level by level stay related under \<open>find\<close>, \<open>filter\<close> and the sort
  by level number.
\<close>

lemma map_of_deleteKey: "map_of (deleteKey k obj) k = None"
  by (induction obj) (auto simp: deleteKey_def)

lemma stripped_no_videoPath:
  "r \<noteq> Admin \<Longrightarrow> map_of (strippedObject r l) ''videoPath'' = None"
  by (simp add: strippedObject_def Let_def map_of_deleteKey)

lemma stripped_no_hasVideo: "map_of (strippedObject r l) ''hasVideo'' = None"
  by (simp add: strippedObject_def toObject_def deleteKey_def Let_def)

lemma stripped_ignores_videoPath:
  "r \<noteq> Admin \<Longrightarrow> strippedObject r (l\<lparr>videoPath := v\<rparr>) = strippedObject r l"
  by (simp add: strippedObject_def toObject_def deleteKey_def Let_def)

lemma sameVideoPresence_fields:
  assumes "sameVideoPresence a b"
  shows "l_id b = l_id a" and "l_courseId b = l_courseId a" and "levelNumber b = levelNumber a"
    and "hasVideo (videoPath b) = hasVideo (videoPath a)"
    and "r \<noteq> Admin \<Longrightarrow> strippedObject r b = strippedObject r a"
proof -
  from assms have eq: "b = a\<lparr>videoPath := videoPath b\<rparr>"
    and hv: "hasVideo (videoPath b) = hasVideo (videoPath a)"
    by (simp_all add: sameVideoPresence_def)
  show "l_id b = l_id a" by (subst eq) simp
  show "l_courseId b = l_courseId a" by (subst eq) simp
  show "levelNumber b = levelNumber a" by (subst eq) simp
  show "hasVideo (videoPath b) = hasVideo (videoPath a)" by (rule hv)
  show "strippedObject r b = strippedObject r a" if "r \<noteq> Admin"
    by (subst eq) (simp add: stripped_ignores_videoPath that)
qed

lemma find_related:
  assumes "list_all2 R xs ys" and "\<And>a b. R a b \<Longrightarrow> P b = P a"
  shows "rel_option R (find P xs) (find P ys)"
  using assms(1)
proof (induction rule: list_all2_induct)
  case Nil
  then show ?case by simp
next
  case (Cons x xs y ys)
  then show ?case using assms(2) [of x y] by simp
qed

lemma filter_related:
  assumes "list_all2 R xs ys" and "\<And>a b. R a b \<Longrightarrow> P b = P a"
  shows "list_all2 R (filter P xs) (filter P ys)"
  using assms(1)
proof (induction rule: list_all2_induct)
  case Nil
  then show ?case by simp
next
  case (Cons x xs y ys)
  then show ?case using assms(2) [of x y] by simp
qed

lemma insort_related:
  assumes "list_all2 R xs ys" and "R x y" and "\<And>a b. R a b \<Longrightarrow> k b = (k a :: int)"
  shows "list_all2 R (insort_key k x xs) (insort_key k y ys)"
  using assms(1)
proof (induction rule: list_all2_induct)
  case Nil
  then show ?case using assms(2) by simp
next
  case (Cons a as b bs)
  then show ?case using assms(2) assms(3) [of a b] assms(3) [of x y] by simp
qed

lemma sort_related:
  assumes "list_all2 R xs ys" and "\<And>a b. R a b \<Longrightarrow> k b = (k a :: int)"
  shows "list_all2 R (sort_key k xs) (sort_key k ys)"
  using assms(1)
proof (induction rule: list_all2_induct)
  case Nil
  then show ?case by simp
next
  case (Cons a as b bs)
  then show ?case using assms(2) by (simp add: insort_related)
qed

lemma map_related:
  assumes "list_all2 R xs ys" and "\<And>a b. R a b \<Longrightarrow> g b = f a"
  shows "map g ys = map f xs"
  using assms(1)
proof (induction rule: list_all2_induct)
  case Nil
  then show ?case by simp
next
  case (Cons a as b bs)
  then show ?case using assms(2) [of a b] by simp
qed

lemma getLevel_equal:
  assumes role: "u_role usr \<noteq> Admin" and diff: "differOnlyInVideoPaths d d2"
  shows "getLevel d2 usr lid = getLevel d usr lid"
proof -
  from diff have cs: "courses d2 = courses d"
    and lv: "list_all2 sameVideoPresence (levels d) (levels d2)"
    by (simp_all add: differOnlyInVideoPaths_def)
  have "rel_option sameVideoPresence (findLevel d lid) (findLevel d2 lid)"
    unfolding findLevel_def using lv
    by (rule find_related) (simp add: sameVideoPresence_fields(1))
  then show ?thesis
  proof (cases rule: option.rel_cases)
    case None
    then show ?thesis by (simp add: getLevel_def)
  next
    case (Some a b)
    note f = sameVideoPresence_fields [OF Some(3)]
    from Some(1,2) role show ?thesis
      by (simp add: getLevel_def cs f(2) f(4) f(5))
  qed
qed

lemma getCourseLevels_equal:
  assumes role: "u_role usr \<noteq> Admin" and diff: "differOnlyInVideoPaths d d2"
  shows "getCourseLevels d2 usr cid = getCourseLevels d usr cid"
proof -
  from diff have cs: "courses d2 = courses d" and ps: "payments d2 = payments d"
    and gs: "progresses d2 = progresses d"
    and lv: "list_all2 sameVideoPresence (levels d) (levels d2)"
    by (simp_all add: differOnlyInVideoPaths_def)
  have fl: "list_all2 sameVideoPresence (filter (\<lambda>l. l_courseId l = cid) (levels d))
              (filter (\<lambda>l. l_courseId l = cid) (levels d2))"
    using lv by (rule filter_related) (simp add: sameVideoPresence_fields(2))
  have sl: "list_all2 sameVideoPresence
              (sort_key levelNumber (filter (\<lambda>l. l_courseId l = cid) (levels d)))
              (sort_key levelNumber (filter (\<lambda>l. l_courseId l = cid) (levels d2)))"
    using fl by (rule sort_related) (simp add: sameVideoPresence_fields(3))
  have views: "map (\<lambda>l. strippedObject (u_role usr) l
                        @ [(''hasVideo'', JBool (hasVideo (videoPath l))),
                           (''locked'', JBool (levelNumber l > n))])
                 (sort_key levelNumber (filter (\<lambda>l. l_courseId l = cid) (levels d2)))
             = map (\<lambda>l. strippedObject (u_role usr) l
                        @ [(''hasVideo'', JBool (hasVideo (videoPath l))),
                           (''locked'', JBool (levelNumber l > n))])
                 (sort_key levelNumber (filter (\<lambda>l. l_courseId l = cid) (levels d)))" for n
    using sl
  proof (rule map_related)
    fix a b
    assume "sameVideoPresence a b"
    note f = sameVideoPresence_fields [OF this]
    show "strippedObject (u_role usr) b
            @ [(''hasVideo'', JBool (hasVideo (videoPath b))),
               (''locked'', JBool (levelNumber b > n))]
        = strippedObject (u_role usr) a
            @ [(''hasVideo'', JBool (hasVideo (videoPath a))),
               (''locked'', JBool (levelNumber a > n))]"
      by (simp only: f(3) f(4) f(5) [OF role])
  qed
  show ?thesis
    unfolding getCourseLevels_def Let_def cs ps gs views ..
qed

lemma getLevel_no_videoPath:
  assumes role: "u_role usr \<noteq> Admin" and run: "getLevel d usr lid = Inr obj"
  shows "map_of obj ''videoPath'' = None"
    and "\<exists>lvl. findLevel d lid = Some lvl
           \<and> map_of obj ''hasVideo'' = Some (JBool (hasVideo (videoPath lvl)))"
proof -
  from run obtain lvl where lvl: "findLevel d lid = Some lvl"
    and obj: "obj = strippedObject (u_role usr) lvl
                     @ [(''hasVideo'', JBool (hasVideo (videoPath lvl)))]"
    by (auto simp: getLevel_def split: option.splits if_splits)
  show "map_of obj ''videoPath'' = None"
    by (simp add: obj stripped_no_videoPath [OF role])
  have "map_of obj ''hasVideo'' = Some (JBool (hasVideo (videoPath lvl)))"
    by (simp add: obj map_add_def stripped_no_hasVideo)
  with lvl show "\<exists>lvl. findLevel d lid = Some lvl
           \<and> map_of obj ''hasVideo'' = Some (JBool (hasVideo (videoPath lvl)))"
    by blast
qed

lemma getCourseLevels_levels:
  assumes run: "getCourseLevels d usr cid = Inr body"
  shows "lb_levels body =
           map (\<lambda>l. strippedObject (u_role usr) l
                      @ [(''hasVideo'', JBool (hasVideo (videoPath l))),
                         (''locked'', JBool (levelNumber l > lb_unlockedLevelNumber body))])
               (sort_key levelNumber (filter (\<lambda>l. l_courseId l = cid) (levels d)))"
proof (cases "courses d cid")
  case None
  with run show ?thesis by (simp add: getCourseLevels_def)
next
  case (Some crs)
  show ?thesis
  proof (cases "u_role usr \<noteq> Admin \<and> c_status crs \<noteq> Published")
    case True
    with run Some show ?thesis by (simp add: getCourseLevels_def)
  next
    case False
    with run Some have "Inr body = getCourseLevels d usr cid" by simp
    then show ?thesis
      using Some False by (simp add: getCourseLevels_def Let_def)
  qed
qed

lemma getCourseLevels_no_videoPath:
  assumes role: "u_role usr \<noteq> Admin" and run: "getCourseLevels d usr cid = Inr body"
    and mem: "obj \<in> set (lb_levels body)"
  shows "map_of obj ''videoPath'' = None"
    and "\<exists>lvl. lvl \<in> set (levels d)
           \<and> map_of obj ''hasVideo'' = Some (JBool (hasVideo (videoPath lvl)))"
proof -
  from mem obtain l where l: "l \<in> set (levels d)"
    and obj: "obj = strippedObject (u_role usr) l
                     @ [(''hasVideo'', JBool (hasVideo (videoPath l))),
                        (''locked'', JBool (levelNumber l > lb_unlockedLevelNumber body))]"
    unfolding getCourseLevels_levels [OF run] by auto
  show "map_of obj ''videoPath'' = None"
    by (simp add: obj stripped_no_videoPath [OF role])
  have "map_of obj ''hasVideo'' = Some (JBool (hasVideo (videoPath l)))"
    by (simp add: obj map_add_def stripped_no_hasVideo)
  with l show "\<exists>lvl. lvl \<in> set (levels d)
           \<and> map_of obj ''hasVideo'' = Some (JBool (hasVideo (videoPath lvl)))"
    by blast
qed

text \<open>
  C9. In every level-metadata response to a non-admin caller (GET /levels/:id and GET
  /levels/course/:courseId) the key \<open>videoPath\<close> is absent from each level object and
  \<open>hasVideo\<close> carries the derived boolean; and two databases that differ only in the
  stored video references of their levels, each level keeping its \<open>hasVideo\<close>, give
  identical responses to both requests.
\<close>

theorem level_metadata_hides_video_reference:
  assumes role: "u_role usr \<noteq> Admin"
  shows "(\<forall>obj. getLevel d usr lid = Inr obj
           \<longrightarrow> map_of obj ''videoPath'' = None
             \<and> (\<exists>lvl. findLevel d lid = Some lvl
                   \<and> map_of obj ''hasVideo'' = Some (JBool (hasVideo (videoPath lvl)))))
       \<and> (\<forall>body obj. getCourseLevels d usr cid = Inr body \<and> obj \<in> set (lb_levels body)
           \<longrightarrow> map_of obj ''videoPath'' = None
             \<and> (\<exists>lvl. lvl \<in> set (levels d)
                   \<and> map_of obj ''hasVideo'' = Some (JBool (hasVideo (videoPath lvl)))))
       \<and> (\<forall>d2. differOnlyInVideoPaths d d2
           \<longrightarrow> getLevel d2 usr lid = getLevel d usr lid
             \<and> getCourseLevels d2 usr cid = getCourseLevels d usr cid)"
proof (intro conjI allI impI)
  fix obj
  assume run: "getLevel d usr lid = Inr obj"
  show "map_of obj ''videoPath'' = None"
    using role run by (rule getLevel_no_videoPath(1))
  show "\<exists>lvl. findLevel d lid = Some lvl
           \<and> map_of obj ''hasVideo'' = Some (JBool (hasVideo (videoPath lvl)))"
    using role run by (rule getLevel_no_videoPath(2))
next
  fix body obj
  assume "getCourseLevels d usr cid = Inr body \<and> obj \<in> set (lb_levels body)"
  then have run: "getCourseLevels d usr cid = Inr body" and mem: "obj \<in> set (lb_levels body)"
    by simp_all
  show "map_of obj ''videoPath'' = None"
    using role run mem by (rule getCourseLevels_no_videoPath(1))
  show "\<exists>lvl. lvl \<in> set (levels d)
           \<and> map_of obj ''hasVideo'' = Some (JBool (hasVideo (videoPath lvl)))"
    using role run mem by (rule getCourseLevels_no_videoPath(2))
next
  fix d2
  assume diff: "differOnlyInVideoPaths d d2"
  show "getLevel d2 usr lid = getLevel d usr lid"
    using role diff by (rule getLevel_equal)
  show "getCourseLevels d2 usr cid = getCourseLevels d usr cid"
    using role diff by (rule getCourseLevels_equal)
qed


lemmas meta_data = dbMoved_def dbS_def level60_def level61_def level63_def level64_def
  paidCourse_def draftCourse_def payment2_def progressAt1_def student2_def admin1_def

theorem level_metadata_hides_video_reference_witness:
  "u_role student2 \<noteq> Admin
   \<and> differOnlyInVideoPaths dbS dbMoved
   \<and> map_option videoPath (findLevel dbS 60) = Some (Some ''/uploads/videos/one.mp4'')
   \<and> map_option videoPath (findLevel dbMoved 60)
       = Some (Some ''https://res.cloudinary.com/v/one.mp4'')
   \<and> getLevel dbMoved student2 60 = getLevel dbS student2 60
   \<and> getCourseLevels dbMoved student2 10 = getCourseLevels dbS student2 10
   \<and> (\<exists>obj. getLevel dbS student2 60 = Inr obj
         \<and> map_of obj ''videoPath'' = None
         \<and> map_of obj ''hasVideo'' = Some (JBool True))
   \<and> (\<exists>obj. getLevel dbS admin1 60 = Inr obj
         \<and> map_of obj ''videoPath'' = Some (JStr ''/uploads/videos/one.mp4''))"
proof -
  have role: "u_role student2 \<noteq> Admin"
    by (simp add: student2_def)
  have diff: "differOnlyInVideoPaths dbS dbMoved"
    by (simp add: differOnlyInVideoPaths_def sameVideoPresence_def hasVideo_def meta_data)
  have paths: "map_option videoPath (findLevel dbS 60) = Some (Some ''/uploads/videos/one.mp4'')"
    "map_option videoPath (findLevel dbMoved 60)
       = Some (Some ''https://res.cloudinary.com/v/one.mp4'')"
    "findLevel dbS 60 = Some level60" "hasVideo (videoPath level60)"
    by (simp_all add: findLevel_def hasVideo_def meta_data)
  note inst = level_metadata_hides_video_reference [OF role, of dbS 60 10]
  have eq: "getLevel dbMoved student2 60 = getLevel dbS student2 60"
    "getCourseLevels dbMoved student2 10 = getCourseLevels dbS student2 10"
    using inst diff by blast+
  obtain obj where run: "getLevel dbS student2 60 = Inr obj"
    by (simp add: getLevel_def findLevel_def meta_data)
  from inst run have "map_of obj ''videoPath'' = None"
    and "\<exists>lvl. findLevel dbS 60 = Some lvl
           \<and> map_of obj ''hasVideo'' = Some (JBool (hasVideo (videoPath lvl)))"
    by blast+
  with paths(3,4) run have student: "\<exists>obj. getLevel dbS student2 60 = Inr obj
         \<and> map_of obj ''videoPath'' = None
         \<and> map_of obj ''hasVideo'' = Some (JBool True)"
    by auto
  have admin: "\<exists>obj. getLevel dbS admin1 60 = Inr obj
         \<and> map_of obj ''videoPath'' = Some (JStr ''/uploads/videos/one.mp4'')"
    by (simp add: getLevel_def findLevel_def strippedObject_def toObject_def meta_data)
  from role diff paths(1,2) eq student admin show ?thesis by (simp only: simp_thms)
qed

end
